theory Spec2Isabelle
  imports Complex_Main "HOL-Library.Sublist" "HOL-Library.Log_Nat"
begin

section \<open>JavaScript primitives used by the inventory code\<close>

text \<open>
  Strings are lists of code units. A HOL \<open>char\<close> has eight bits, so the model covers the
  strings whose code units are below 256; on these \<open>trim\<close> and \<open>toLowerCase\<close> are the
  functions of the language. Literals of the source with code units above 255 (the column
  headers and the category keywords) are parameters of the loader; the two status messages,
  which are template literals, are modelled by their template and their argument.

  Numbers are \<open>jsnum\<close>: NaN, the two infinities, or a finite value, a rational. Every
  conversion and every sum rounds its exact result to the nearest double with \<open>toDouble\<close>;
  the two zeros are not told apart.
\<close>

datatype jsnum = NaN | PosInf | NegInf | Fin rat

fun js_neg :: "jsnum \<Rightarrow> jsnum" where
  "js_neg NaN = NaN"
| "js_neg PosInf = NegInf"
| "js_neg NegInf = PosInf"
| "js_neg (Fin a) = Fin (- a)"

text \<open>
  \<open>toDouble v\<close> is the double nearest to \<open>v\<close>, a tie going to the even significand:
  with \<open>2 ^ e \<le> v < 2 ^ (e + 1)\<close> the doubles around \<open>v\<close> are the multiples of
  \<open>2 ^ (e - 52)\<close>, below \<open>2 ^ (- 1022)\<close> those of \<open>2 ^ (- 1074)\<close>, and a result of
  \<open>2 ^ 1024\<close> or more is infinite. A whole number of magnitude at most \<open>2 ^ 53\<close> is a
  double as it stands. The language lets an implementation cut a decimal literal of more than
  20 significant digits before rounding it; the model rounds the exact value, as the common
  engines do.
\<close>

definition pow2 :: "int \<Rightarrow> rat" where
  "pow2 e = (if 0 \<le> e then of_int (2 ^ nat e) else 1 / of_int (2 ^ nat (- e)))"

definition roundHalfEven :: "rat \<Rightarrow> int" where
  "roundHalfEven x =
     (let f = \<lfloor>x\<rfloor>; r = x - of_int f
      in if r < 1 / 2 then f
         else if 1 / 2 < r then f + 1
         else if even f then f else f + 1)"

text \<open>The \<open>e\<close> with \<open>2 ^ e \<le> v < 2 ^ (e + 1)\<close>, for a positive \<open>v\<close>.\<close>

definition binaryExponent :: "rat \<Rightarrow> int" where
  "binaryExponent v =
     (let e0 = bitlen (fst (quotient_of v)) - bitlen (snd (quotient_of v))
      in if pow2 e0 \<le> v then e0 else e0 - 1)"

definition roundPositive :: "rat \<Rightarrow> jsnum" where
  "roundPositive v =
     (let e = max (binaryExponent v) (- 1022);
          ulp = pow2 (e - 52);
          r = of_int (roundHalfEven (v / ulp)) * ulp
      in if pow2 1024 \<le> r then PosInf else Fin r)"

definition toDouble :: "rat \<Rightarrow> jsnum" where
  "toDouble v =
     (if of_int \<lfloor>v\<rfloor> = v \<and> \<bar>v\<bar> \<le> 9007199254740992 then Fin v
      else if 0 < v then roundPositive v
      else js_neg (roundPositive (- v)))"



definition isWhiteSpace :: "char \<Rightarrow> bool" where
  "isWhiteSpace c =
     (c \<in> set [CHR 0x09, CHR 0x0A, CHR 0x0B, CHR 0x0C, CHR 0x0D, CHR 0x20, CHR 0xA0])"

definition trimStart :: "string \<Rightarrow> string" where
  "trimStart s = dropWhile isWhiteSpace s"

definition trim :: "string \<Rightarrow> string" where
  "trim s = rev (dropWhile isWhiteSpace (rev (dropWhile isWhiteSpace s)))"

definition toLowerCaseChar :: "char \<Rightarrow> char" where
  "toLowerCaseChar c =
     (let n = (of_char c :: nat)
      in if (65 \<le> n \<and> n \<le> 90) \<or> (192 \<le> n \<and> n \<le> 222 \<and> n \<noteq> 215)
         then char_of (n + 32) else c)"

definition toLowerCase :: "string \<Rightarrow> string" where
  "toLowerCase s = map toLowerCaseChar s"

definition startsWith :: "string \<Rightarrow> string \<Rightarrow> bool" where
  "startsWith s p = (take (length p) s = p)"

text \<open>\<open>s.includes(q)\<close>: \<open>q\<close> occurs in \<open>s\<close> as a contiguous run.\<close>

fun includesStr :: "string \<Rightarrow> string \<Rightarrow> bool" where
  "includesStr [] q = (q = [])"
| "includesStr (c # s) q = (startsWith (c # s) q \<or> includesStr s q)"

text \<open>\<open>s.replace(/,/g, '')\<close> and \<open>s.replace(/\D/g, '')\<close>.\<close>

definition isDigit :: "char \<Rightarrow> bool" where
  "isDigit c = (c \<in> set ''0123456789'')"

definition removeCommas :: "string \<Rightarrow> string" where
  "removeCommas s = filter (\<lambda>c. c \<noteq> CHR '','') s"

definition removeNonDigits :: "string \<Rightarrow> string" where
  "removeNonDigits s = filter isDigit s"

text \<open>The whole number a run of decimal digits spells.\<close>

definition digitVal :: "char \<Rightarrow> int" where
  "digitVal c = of_char c - 48"

definition digitsVal :: "string \<Rightarrow> int" where
  "digitsVal s = foldl (\<lambda>a c. 10 * a + digitVal c) 0 s"

text \<open>
  \<open>parseInt(s, 10)\<close>: leading white space is skipped, a sign is read, then the longest run
  of decimal digits; no digit gives NaN, and the number the digits spell is rounded to a
  double.
\<close>

definition parseInt10 :: "string \<Rightarrow> jsnum" where
  "parseInt10 s =
     (let t = trimStart s;
          neg = startsWith t ''-'';
          body = (if startsWith t ''-'' \<or> startsWith t ''+'' then drop 1 t else t);
          ds = takeWhile isDigit body
      in if ds = [] then NaN
         else toDouble (if neg then - of_int (digitsVal ds) else of_int (digitsVal ds)))"

text \<open>
  \<open>Number(s)\<close> on a string: white space is trimmed; the empty string is 0; then a
  prefixed binary, octal or hexadecimal integer, or a signed decimal literal with optional
  fraction and exponent, or a signed \<open>Infinity\<close>; anything else is NaN. The value
  the literal spells is rounded to a double.
\<close>

definition radixDigit :: "int \<Rightarrow> char \<Rightarrow> int option" where
  "radixDigit r c =
     (let n = (of_char c :: int);
          v = (if 48 \<le> n \<and> n \<le> 57 then n - 48
               else if 97 \<le> n \<and> n \<le> 102 then n - 87
               else if 65 \<le> n \<and> n \<le> 70 then n - 55
               else r)
      in if v < r then Some v else None)"

definition radixVal :: "int \<Rightarrow> string \<Rightarrow> jsnum" where
  "radixVal r s =
     (if s = [] \<or> (\<exists>c \<in> set s. radixDigit r c = None) then NaN
      else toDouble (of_int (foldl (\<lambda>a c. r * a + the (radixDigit r c)) 0 s)))"

definition exponentPart :: "string \<Rightarrow> int option" where
  "exponentPart s =
     (if s = [] then Some 0
      else if startsWith s ''e'' \<or> startsWith s ''E'' then
        (let t = drop 1 s;
             neg = startsWith t ''-'';
             ds = (if startsWith t ''-'' \<or> startsWith t ''+'' then drop 1 t else t)
         in if ds = [] \<or> (\<exists>c \<in> set ds. \<not> isDigit c) then None
            else Some (if neg then - digitsVal ds else digitsVal ds))
      else None)"

definition pow10 :: "int \<Rightarrow> rat" where
  "pow10 e = (if 0 \<le> e then of_int (10 ^ nat e) else 1 / of_int (10 ^ nat (- e)))"

definition unsignedDecimal :: "string \<Rightarrow> rat option" where
  "unsignedDecimal s =
     (let ip = takeWhile isDigit s;
          r1 = dropWhile isDigit s;
          dot = startsWith r1 ''.'';
          fp = (if dot then takeWhile isDigit (drop 1 r1) else []);
          r2 = (if dot then dropWhile isDigit (drop 1 r1) else r1)
      in if ip = [] \<and> fp = [] then None
         else case exponentPart r2 of
                None \<Rightarrow> None
              | Some e \<Rightarrow>
                  Some (of_int (digitsVal (ip @ fp)) / of_int (10 ^ length fp) * pow10 e))"

definition Number :: "string \<Rightarrow> jsnum" where
  "Number s =
     (let t = trim s in
      if t = [] then Fin 0
      else if startsWith t ''0x'' \<or> startsWith t ''0X'' then radixVal 16 (drop 2 t)
      else if startsWith t ''0o'' \<or> startsWith t ''0O'' then radixVal 8 (drop 2 t)
      else if startsWith t ''0b'' \<or> startsWith t ''0B'' then radixVal 2 (drop 2 t)
      else
        (let neg = startsWith t ''-'';
             body = (if startsWith t ''-'' \<or> startsWith t ''+'' then drop 1 t else t)
         in if body = ''Infinity'' then (if neg then NegInf else PosInf)
            else case unsignedDecimal body of
                   None \<Rightarrow> NaN
                 | Some v \<Rightarrow> toDouble (if neg then - v else v)))"

text \<open>\<open>a || b\<close> on an optional string: \<open>undefined\<close> and the empty string are falsy.\<close>

definition truthy :: "string option \<Rightarrow> bool" where
  "truthy v = (case v of None \<Rightarrow> False | Some s \<Rightarrow> s \<noteq> [])"

definition orElse :: "string option \<Rightarrow> string \<Rightarrow> string" where
  "orElse v d = (if truthy v then the v else d)"

text \<open>\<open>xs.findIndex(P)\<close>; the result -1 of the source is \<open>None\<close>.\<close>

fun findIndex :: "('a \<Rightarrow> bool) \<Rightarrow> 'a list \<Rightarrow> nat option" where
  "findIndex P [] = None"
| "findIndex P (x # xs) = (if P x then Some 0 else map_option Suc (findIndex P xs))"

text \<open>\<open>[...new Set(xs)]\<close>: the first occurrence of each element, in order.\<close>

definition uniqueInOrder :: "'a list \<Rightarrow> 'a list" where
  "uniqueInOrder xs = rev (remdups (rev xs))"


section \<open>Helper functions of the source\<close>

definition parseFormattedNumber :: "string \<Rightarrow> jsnum" where
  "parseFormattedNumber v =
     (let rawValue = removeNonDigits v;
          number = parseInt10 rawValue
      in if number = NaN then Fin 0 else number)"

text \<open>
  A row of \<open>sheet_to_json(worksheet, {raw: false})\<close>: the cells of one line as formatted
  text under their column headers, in the order \<open>for ... in\<close> enumerates them. An empty
  cell has no entry.
\<close>

type_synonym row = "(string \<times> string) list"

fun findInRow :: "row \<Rightarrow> string \<Rightarrow> string option" where
  "findInRow [] lowerTargetKey = None"
| "findInRow ((rowKey, v) # rest) lowerTargetKey =
     (if trim (toLowerCase rowKey) = lowerTargetKey then Some v
      else findInRow rest lowerTargetKey)"

fun findValue :: "row \<Rightarrow> string list \<Rightarrow> string option" where
  "findValue r [] = None"
| "findValue r (targetKey # keys) =
     (case findInRow r (trim (toLowerCase targetKey)) of
        Some v \<Rightarrow> Some v
      | None \<Rightarrow> findValue r keys)"


section \<open>Data model\<close>

record InventoryItem =
  qrCode :: string
  productCodeForSearch :: string
  productName :: string
  quantity :: jsnum
  price :: jsnum
  checked :: bool
  hasImei :: bool
  status :: string
  category :: string

text \<open>
  \<open>ExcelCheckItem\<close>: its fields \<open>productName\<close> and \<open>category\<close> carry the suffix \<open>X\<close>
  here, the names being taken by \<open>InventoryItem\<close>. \<open>actualQuantity\<close> is \<open>null\<close> or a
  whole number (it is only ever set to \<open>null\<close>, to a \<open>parseInt\<close> result that is not
  NaN, or to itself plus one), \<open>imei\<close> is optional.
\<close>

record ExcelCheckItem =
  productCode :: string
  productNameX :: string
  fileQuantity :: jsnum
  actualQuantity :: "int option"
  imei :: "string option"
  categoryX :: string

text \<open>The column headers the two loaders look values up under.\<close>

record columns =
  colImei :: "string list"
  colProductCode :: "string list"
  colProductName :: "string list"
  colQuantity :: "string list"
  colStatus :: "string list"
  colCategory :: "string list"
  colPrice :: "string list"

text \<open>The part of the page state the inventory check reads and writes.\<close>

record InventoryState =
  inventoryItems :: "InventoryItem list"
  imeiFilter :: string
  statusFilter :: string
  categoryFilter :: string
  availableStatuses :: "string list"
  availableCategories :: "string list"
  searchQuery :: string
  searchHistory :: "(string \<times> InventoryItem option) list"
  isSuggestionsVisible :: bool

datatype scanStatusType = Idle | Success | Error

datatype scanMessage = ReadyToScan | Updated string | NotFound string

record ScanState =
  excelCheckItems :: "ExcelCheckItem list"
  scanQuery :: string
  scanStatus :: "scanStatusType \<times> scanMessage"
  lastScannedIndex :: "nat option"



section \<open>Inventory check: loading, toggling, filtering, searching\<close>

text \<open>
  \<open>if (s.startsWith("'")) s = s.substring(1)\<close>, the step both loaders and the scan apply
  to a trimmed identifier.
\<close>

definition stripLeadingQuote :: "string \<Rightarrow> string" where
  "stripLeadingQuote s = (if startsWith s [CHR 0x27] then drop 1 s else s)"

text \<open>
  The body of the \<open>json.map\<close> callback of \<open>handleFileImport\<close>.
  \<open>getCategoryFromProductName\<close> matches keywords with code units above 255 and is a
  parameter; so are the column headers.
\<close>

definition inventoryItemOfRow :: "(string \<Rightarrow> string) \<Rightarrow> columns \<Rightarrow> row \<Rightarrow> InventoryItem" where
  "inventoryItemOfRow getCategoryFromProductName cols r =
     (let imeiV = findValue r (colImei cols);
          productCodeV = findValue r (colProductCode cols);
          productNameV = findValue r (colProductName cols);
          quantityV = findValue r (colQuantity cols);
          statusV = findValue r (colStatus cols);
          originalCategory = findValue r (colCategory cols);
          priceString = orElse (findValue r (colPrice cols)) ''0'';
          derivedCategory = getCategoryFromProductName (orElse productNameV []);
          finalCategory = (if derivedCategory \<noteq> ''default'' then derivedCategory
                           else orElse originalCategory ''N/A'');
          rawQrCodeValue = stripLeadingQuote (trim (orElse imeiV (orElse productCodeV [])));
          rawProductCodeValue = stripLeadingQuote (trim (orElse productCodeV []))
      in \<lparr> qrCode = rawQrCodeValue,
           productCodeForSearch = rawProductCodeValue,
           productName = orElse productNameV ''N/A'',
           quantity = Number (removeCommas (orElse quantityV ''0'')),
           price = parseFormattedNumber priceString,
           checked = False,
           hasImei = truthy imeiV,
           status = orElse statusV ''N/A'',
           category = finalCategory \<rparr>)"

definition handleFileImport ::
  "(string \<Rightarrow> string) \<Rightarrow> columns \<Rightarrow> row list \<Rightarrow> InventoryState \<Rightarrow> InventoryState" where
  "handleFileImport getCategoryFromProductName cols json st =
     (let loadedItems = map (inventoryItemOfRow getCategoryFromProductName cols) json;
          uniqueStatuses = uniqueInOrder
            (filter (\<lambda>s. s \<noteq> ''N/A'') (filter (\<lambda>s. s \<noteq> []) (map status loadedItems)));
          uniqueCategories = uniqueInOrder
            (filter (\<lambda>c. c \<noteq> ''N/A'') (filter (\<lambda>c. c \<noteq> []) (map category loadedItems)))
      in st \<lparr> availableStatuses := uniqueStatuses,
              availableCategories := uniqueCategories,
              inventoryItems := loadedItems,
              imeiFilter := ''all'',
              statusFilter := ''all'',
              categoryFilter := ''all'',
              searchHistory := [],
              searchQuery := [] \<rparr>)"

text \<open>
  \<open>filteredInventoryItems\<close>, which \<open>handleCheckItem\<close> recomputes as
  \<open>futureFilteredItems\<close>: every item with its index in the full list, then the three filters.
\<close>

definition filteredInventoryItems ::
  "string \<Rightarrow> string \<Rightarrow> string \<Rightarrow> InventoryItem list \<Rightarrow> (InventoryItem \<times> nat) list" where
  "filteredInventoryItems imeiF statusF categoryF items =
     filter (\<lambda>(item, originalIndex). if categoryF = ''all'' then True else category item = categoryF)
       (filter (\<lambda>(item, originalIndex). if statusF = ''all'' then True else status item = statusF)
          (filter (\<lambda>(item, originalIndex).
                     if imeiF = ''all'' then True
                     else if imeiF = ''with_imei'' then hasImei item
                     else if imeiF = ''without_imei'' then \<not> hasImei item
                     else True)
             (zip items [0 ..< length items])))"

text \<open>The three filter callbacks as one predicate on a record.\<close>

definition passesFilters :: "string \<Rightarrow> string \<Rightarrow> string \<Rightarrow> InventoryItem \<Rightarrow> bool" where
  "passesFilters imeiF statusF categoryF item =
     ((if imeiF = ''all'' then True
       else if imeiF = ''with_imei'' then hasImei item
       else if imeiF = ''without_imei'' then \<not> hasImei item
       else True)
      \<and> (if statusF = ''all'' then True else status item = statusF)
      \<and> (if categoryF = ''all'' then True else category item = categoryF))"

text \<open>
  \<open>for (let i = lo; i < hi; i++) if (!xs[i].checked) { next = i; break; }\<close>; the loop is
  only run with \<open>hi \<le> length xs\<close>.
\<close>

function firstUncheckedIn :: "(InventoryItem \<times> nat) list \<Rightarrow> nat \<Rightarrow> nat \<Rightarrow> nat option" where
  "firstUncheckedIn xs i hi =
     (if i < hi then (if \<not> checked (fst (xs ! i)) then Some i else firstUncheckedIn xs (Suc i) hi)
      else None)"
  by pat_completeness auto
termination
  by (relation "measure (\<lambda>(xs, i, hi). hi - i)") auto

text \<open>
  The three steps of \<open>handleCheckItem\<close>: \<open>newItems\<close>, the list with the checked flag
  flipped at \<open>originalIndex\<close>; the position of the toggled record in the filtered list and
  the two loops that look for the next unchecked record after it, then before it; and the
  handler itself, which returns the new state and the index of the row it asks the page to
  scroll to, if any. A record the filters exclude ends the handler with no target.
\<close>

definition toggleChecked :: "nat \<Rightarrow> InventoryItem list \<Rightarrow> InventoryItem list" where
  "toggleChecked originalIndex items =
     map (\<lambda>(item, i). if i = originalIndex then item \<lparr> checked := \<not> checked item \<rparr> else item)
       (zip items [0 ..< length items])"

definition nextUncheckedTarget :: "nat \<Rightarrow> (InventoryItem \<times> nat) list \<Rightarrow> nat option" where
  "nextUncheckedTarget originalIndex futureFilteredItems =
     (case findIndex (\<lambda>(item, idx). idx = originalIndex) futureFilteredItems of
        None \<Rightarrow> None
      | Some currentFilteredIndex \<Rightarrow>
          (let nextUncheckedFilteredIndex =
                 (case firstUncheckedIn futureFilteredItems (currentFilteredIndex + 1)
                         (length futureFilteredItems) of
                    Some i \<Rightarrow> Some i
                  | None \<Rightarrow> firstUncheckedIn futureFilteredItems 0 currentFilteredIndex)
           in case nextUncheckedFilteredIndex of
                None \<Rightarrow> None
              | Some i \<Rightarrow> Some (snd (futureFilteredItems ! i))))"

definition handleCheckItem :: "nat \<Rightarrow> InventoryState \<Rightarrow> InventoryState \<times> nat option" where
  "handleCheckItem originalIndex st =
     (let newItems = toggleChecked originalIndex (inventoryItems st);
          futureFilteredItems =
            filteredInventoryItems (imeiFilter st) (statusFilter st) (categoryFilter st) newItems
      in (st \<lparr> inventoryItems := newItems \<rparr>,
          nextUncheckedTarget originalIndex futureFilteredItems))"

text \<open>
  \<open>handleSearchSubmit\<close>: the predicate of its \<open>find\<close>, the resolution (exact key, then
  the first record whose lowered name contains the query), and the handler, which does
  nothing on a blank query.
\<close>

definition exactKeyMatch :: "string \<Rightarrow> InventoryItem \<Rightarrow> bool" where
  "exactKeyMatch query item =
     ((qrCode item \<noteq> [] \<and> toLowerCase (trim (qrCode item)) = query) \<or>
      (productCodeForSearch item \<noteq> [] \<and> toLowerCase (trim (productCodeForSearch item)) = query))"

definition resolveSearch :: "InventoryItem list \<Rightarrow> string \<Rightarrow> InventoryItem option" where
  "resolveSearch items query =
     (case find (exactKeyMatch query) items of
        Some item \<Rightarrow> Some item
      | None \<Rightarrow>
          (case filter (\<lambda>item. includesStr (toLowerCase (productName item)) query) items of
             [] \<Rightarrow> None
           | m # ms \<Rightarrow> Some m))"

definition handleSearchSubmit :: "InventoryState \<Rightarrow> InventoryState" where
  "handleSearchSubmit st =
     (if trim (searchQuery st) = [] then st
      else
        (let query = toLowerCase (trim (searchQuery st));
             foundItem = resolveSearch (inventoryItems st) query
         in st \<lparr> searchHistory := (trim (searchQuery st), foundItem) # searchHistory st,
                 searchQuery := [],
                 isSuggestionsVisible := False \<rparr>))"


section \<open>Stock transfer check: loading, scanning, statistics\<close>

text \<open>The body of the \<open>json.map\<close> callback of \<open>handleFileImportForExcelCheck\<close>.\<close>

definition excelCheckItemOfRow :: "(string \<Rightarrow> string) \<Rightarrow> columns \<Rightarrow> row \<Rightarrow> ExcelCheckItem" where
  "excelCheckItemOfRow getCategoryFromProductName cols r =
     (let productCodeV = stripLeadingQuote (trim (orElse (findValue r (colProductCode cols)) ''N/A''));
          productNameV = findValue r (colProductName cols);
          quantityV = findValue r (colQuantity cols);
          imei0 = findValue r (colImei cols);
          imeiV = (if truthy imei0 then Some (stripLeadingQuote (trim (the imei0))) else imei0);
          originalCategory = findValue r (colCategory cols);
          derivedCategory = getCategoryFromProductName (orElse productNameV []);
          finalCategory = (if derivedCategory \<noteq> ''default'' then derivedCategory
                           else orElse originalCategory ''N/A'')
      in \<lparr> productCode = productCodeV,
           productNameX = orElse productNameV ''N/A'',
           fileQuantity = Number (removeCommas (orElse quantityV ''0'')),
           actualQuantity = None,
           imei = (if truthy imeiV then imeiV else None),
           categoryX = finalCategory \<rparr>)"

definition handleFileImportForExcelCheck ::
  "(string \<Rightarrow> string) \<Rightarrow> columns \<Rightarrow> row list \<Rightarrow> ScanState \<Rightarrow> ScanState" where
  "handleFileImportForExcelCheck getCategoryFromProductName cols json st =
     st \<lparr> excelCheckItems := map (excelCheckItemOfRow getCategoryFromProductName cols) json,
          scanStatus := (Idle, ReadyToScan) \<rparr>"

text \<open>
  The helper \<open>cleanString\<close> of \<open>handleScanSubmit\<close>: a missing or empty string is
  cleaned to the empty string, any other is trimmed, loses one leading quote mark and is
  lowered.
\<close>

definition cleanString :: "string option \<Rightarrow> string" where
  "cleanString str =
     (if \<not> truthy str then []
      else toLowerCase (stripLeadingQuote (trim (the str))))"

text \<open>The two \<open>findIndex\<close> calls of \<open>handleScanSubmit\<close>: product code first, then IMEI.\<close>

definition scanFoundIndex :: "ExcelCheckItem list \<Rightarrow> string \<Rightarrow> nat option" where
  "scanFoundIndex items sanitizedQuery =
     (case findIndex (\<lambda>item. cleanString (Some (productCode item)) = sanitizedQuery) items of
        Some i \<Rightarrow> Some i
      | None \<Rightarrow> findIndex (\<lambda>item. cleanString (imei item) = sanitizedQuery) items)"

text \<open>
  \<open>handleScanSubmit\<close>. The timer that clears \<open>lastScannedIndex\<close> a second later is not
  part of the model.
\<close>

definition handleScanSubmit :: "ScanState \<Rightarrow> ScanState" where
  "handleScanSubmit st =
     (let query = trim (scanQuery st) in
      if query = [] then st
      else
        (let sanitizedQuery = toLowerCase (stripLeadingQuote query);
             items = excelCheckItems st
         in case scanFoundIndex items sanitizedQuery of
              Some foundIndex \<Rightarrow>
                (let itemToUpdate = items ! foundIndex;
                     updated = itemToUpdate
                       \<lparr> actualQuantity :=
                           Some ((case actualQuantity itemToUpdate of None \<Rightarrow> 0 | Some n \<Rightarrow> n) + 1) \<rparr>
                 in st \<lparr> excelCheckItems := items [foundIndex := updated],
                         scanStatus := (Success, Updated (productNameX itemToUpdate)),
                         lastScannedIndex := Some foundIndex,
                         scanQuery := [] \<rparr>)
            | None \<Rightarrow>
                st \<lparr> scanStatus := (Error, NotFound query), scanQuery := [] \<rparr>))"

text \<open>The operator types or scans \<open>q\<close> into the scan field and submits it.\<close>

definition scan :: "string \<Rightarrow> ScanState \<Rightarrow> ScanState" where
  "scan q st = handleScanSubmit (st \<lparr> scanQuery := q \<rparr>)"



definition mismatchedItems :: "ExcelCheckItem list \<Rightarrow> ExcelCheckItem list" where
  "mismatchedItems items =
     filter (\<lambda>item. case actualQuantity item of
                       None \<Rightarrow> False
                     | Some a \<Rightarrow> Fin (of_int a) \<noteq> fileQuantity item) items"






section \<open>Example data\<close>

definition exItem :: "string \<Rightarrow> string \<Rightarrow> bool \<Rightarrow> bool \<Rightarrow> InventoryItem" where
  "exItem qr code imeiFlag chk =
     \<lparr> qrCode = qr, productCodeForSearch = code, productName = ''Item '' @ code,
       quantity = Fin 1, price = Fin 0, checked = chk, hasImei = imeiFlag,
       status = ''N/A'', category = ''N/A'' \<rparr>"

definition exInventory :: "InventoryItem list \<Rightarrow> string \<Rightarrow> string \<Rightarrow> InventoryState" where
  "exInventory items imeiF q =
     \<lparr> inventoryItems = items, imeiFilter = imeiF, statusFilter = ''all'',
       categoryFilter = ''all'', availableStatuses = [], availableCategories = [],
       searchQuery = q, searchHistory = [], isSuggestionsVisible = False \<rparr>"

text \<open>Three records, the second without an IMEI, and the filter on records with an IMEI.\<close>

definition sweepState :: InventoryState where
  "sweepState =
     exInventory
       [exItem ''350001'' ''A1'' True False, exItem ''B2'' ''B2'' False False,
        exItem ''350003'' ''C3'' True False]
       ''with_imei'' []"

definition exCheckItem :: "string \<Rightarrow> string option \<Rightarrow> rat \<Rightarrow> ExcelCheckItem" where
  "exCheckItem code im qty =
     \<lparr> productCode = code, productNameX = ''Item '' @ code, fileQuantity = Fin qty,
       actualQuantity = None, imei = im, categoryX = ''N/A'' \<rparr>"

definition exScanState :: "ExcelCheckItem list \<Rightarrow> ScanState" where
  "exScanState items =
     \<lparr> excelCheckItems = items, scanQuery = [], scanStatus = (Idle, ReadyToScan),
       lastScannedIndex = None \<rparr>"

text \<open>The scenario of the specification: A1 with quantity 5 and B2 with quantity 3.\<close>

definition scenarioState :: ScanState where
  "scenarioState = exScanState [exCheckItem ''A1'' None 5, exCheckItem ''B2'' None 3]"

text \<open>Two rows with the product code A1.\<close>

definition duplicateState :: ScanState where
  "duplicateState = exScanState [exCheckItem ''A1'' None 5, exCheckItem ''A1'' None 3]"

text \<open>X9 is the IMEI of the first record and the product code of the second.\<close>

definition crossedState :: ScanState where
  "crossedState = exScanState [exCheckItem ''P1'' (Some ''X9'') 1, exCheckItem ''X9'' None 1]"

definition crossedInventory :: "InventoryItem list" where
  "crossedInventory = [exItem ''X9'' ''X9'' False False, exItem ''X9'' ''P1'' True False]"

text \<open>Two rows whose product codes differ in case only.\<close>

definition duplicateInventory :: "InventoryItem list" where
  "duplicateInventory = [exItem ''A1'' ''A1'' False False, exItem ''a1'' ''a1'' False False]"

definition exColumns :: columns where
  "exColumns =
     \<lparr> colImei = [''IMEI_1''], colProductCode = [''code''], colProductName = [''name''],
       colQuantity = [''qty''], colStatus = [''status''], colCategory = [''category''],
       colPrice = [''sale price'', ''price''] \<rparr>"

definition noCategory :: "string \<Rightarrow> string" where
  "noCategory name = ''default''"

definition exRows :: "row list" where
  "exRows = [[(''Name'', ''Pen''), (''Code'', ''A1''), (''Qty'', ''5'')],
             [(''Code'', ''B2''), (''Qty'', ''abc''), (''Price'', ''1.5 k'')]]"

text \<open>The rows the example states are loaded from.\<close>

definition scenarioRows :: "row list" where
  "scenarioRows = [[(''Code'', ''A1''), (''Name'', ''Item A1''), (''Qty'', ''5'')],
                   [(''Code'', ''B2''), (''Name'', ''Item B2''), (''Qty'', ''3'')]]"

definition duplicateRows :: "row list" where
  "duplicateRows = [[(''Code'', ''A1''), (''Name'', ''Item A1''), (''Qty'', ''5'')],
                    [(''Code'', ''A1''), (''Name'', ''Item A1''), (''Qty'', ''3'')]]"

definition crossedRows :: "row list" where
  "crossedRows =
     [[(''IMEI_1'', ''X9''), (''Code'', ''P1''), (''Name'', ''Item P1''), (''Qty'', ''1'')],
      [(''Code'', ''X9''), (''Name'', ''Item X9''), (''Qty'', ''1'')]]"

definition duplicateCaseRows :: "row list" where
  "duplicateCaseRows = [[(''Code'', ''A1''), (''Name'', ''Item A1''), (''Qty'', ''1'')],
                        [(''Code'', ''a1''), (''Name'', ''Item a1''), (''Qty'', ''1'')]]"

definition sweepRows :: "row list" where
  "sweepRows =
     [[(''IMEI_1'', ''350001''), (''Code'', ''A1''), (''Name'', ''Item A1''), (''Qty'', ''1'')],
      [(''Code'', ''B2''), (''Name'', ''Item B2''), (''Qty'', ''1'')],
      [(''IMEI_1'', ''350003''), (''Code'', ''C3''), (''Name'', ''Item C3''), (''Qty'', ''1'')]]"

text \<open>Record lists with the same totals and the same number of mismatches.\<close>

definition counted :: "string \<Rightarrow> rat \<Rightarrow> int \<Rightarrow> ExcelCheckItem" where
  "counted code qty n = (exCheckItem code None qty) \<lparr> actualQuantity := Some n \<rparr>"

definition surplusHeavy :: "ExcelCheckItem list" where
  "surplusHeavy = [counted ''A1'' 1 2, counted ''B2'' 1 2, counted ''C3'' 4 2]"

definition deficitHeavy :: "ExcelCheckItem list" where
  "deficitHeavy = [counted ''A1'' 3 2, counted ''B2'' 3 2, counted ''C3'' 0 2]"

text \<open>
  The rows a claim about the loader speaks of: those with a display name that is present
  and not empty.
\<close>

definition hasDisplayName :: "columns \<Rightarrow> row \<Rightarrow> bool" where
  "hasDisplayName cols r = truthy (findValue r (colProductName cols))"

definition rowsWithDisplayName :: "columns \<Rightarrow> row list \<Rightarrow> row list" where
  "rowsWithDisplayName cols rows = filter (hasDisplayName cols) rows"

text \<open>
  A query matches a key of a record, as a claim about failed scans reads it: the normalized
  query is the normalized product code, or the record has an IMEI and the normalized query is
  the normalized IMEI.
\<close>

definition matchesSomeKey :: "string \<Rightarrow> ExcelCheckItem \<Rightarrow> bool" where
  "matchesSomeKey q item =
     (toLowerCase (stripLeadingQuote (trim (productCode item))) =
        toLowerCase (stripLeadingQuote (trim q))
      \<or> (case imei item of
            None \<Rightarrow> False
          | Some k \<Rightarrow> toLowerCase (stripLeadingQuote (trim k)) =
                       toLowerCase (stripLeadingQuote (trim q))))"

section \<open>Auxiliary facts\<close>

subsection \<open>Lists\<close>

lemma all_less_zero: "(\<forall>k<(0::nat). P k) \<longleftrightarrow> True"
  by simp

lemma all_less_one: "(\<forall>k<(1::nat). P k) \<longleftrightarrow> P 0"
  by (simp add: less_one)

lemma findIndex_None_iff: "findIndex P xs = None \<longleftrightarrow> (\<forall>x \<in> set xs. \<not> P x)"
  by (induction xs) auto

lemma findIndex_Some:
  "findIndex P xs = Some k \<Longrightarrow> k < length xs \<and> P (xs ! k) \<and> (\<forall>j < k. \<not> P (xs ! j))"
proof (induction xs arbitrary: k)
  case Nil
  then show ?case by simp
next
  case (Cons x xs)
  show ?case
  proof (cases "P x")
    case True
    with Cons.prems show ?thesis by simp
  next
    case False
    with Cons.prems obtain k' where k': "findIndex P xs = Some k'" "k = Suc k'"
      by auto
    from Cons.IH [OF k'(1)] False k'(2) show ?thesis
      by (auto simp: less_Suc_eq_0_disj)
  qed
qed

lemma findIndex_first:
  "k < length xs \<Longrightarrow> P (xs ! k) \<Longrightarrow> (\<forall>j < k. \<not> P (xs ! j)) \<Longrightarrow> findIndex P xs = Some k"
proof (induction xs arbitrary: k)
  case Nil
  then show ?case by simp
next
  case (Cons x xs)
  show ?case
  proof (cases k)
    case 0
    with Cons.prems show ?thesis by simp
  next
    case (Suc k')
    with Cons.prems have "\<not> P x" by auto
    moreover have "findIndex P xs = Some k'"
      using Cons.prems Suc by (intro Cons.IH) auto
    ultimately show ?thesis using Suc by simp
  qed
qed

lemma find_Some_member: "find P xs = Some x \<Longrightarrow> x \<in> set xs \<and> P x"
  by (induction xs) (auto split: if_splits)

lemma find_append_or:
  "find P (xs @ ys) = (case find P xs of Some x \<Rightarrow> Some x | None \<Rightarrow> find P ys)"
  by (induction xs) auto

lemma rotated_set:
  assumes "k < length F" "distinct F"
  shows "set (drop (Suc k) F @ take k F) = set F - {F ! k}"
proof -
  have F: "F = take k F @ F ! k # drop (Suc k) F"
    using assms(1) by (simp add: id_take_nth_drop)
  have "distinct (take k F @ F ! k # drop (Suc k) F)"
    using assms(2) F by simp
  then have "F ! k \<notin> set (take k F)" "F ! k \<notin> set (drop (Suc k) F)"
    by auto
  moreover have "set F = set (take k F) \<union> {F ! k} \<union> set (drop (Suc k) F)"
    by (subst F) auto
  ultimately show ?thesis by auto
qed

subsection \<open>Strings and numbers\<close>


lemma trim_nonempty: "trim s \<noteq> [] \<Longrightarrow> s \<noteq> []"
  by (auto simp: trim_def)

lemma startsWith_iff: "startsWith s p \<longleftrightarrow> (\<exists>t. s = p @ t)"
  unfolding startsWith_def by (metis append_eq_conv_conj append_take_drop_id)

lemma includesStr_iff: "includesStr s q \<longleftrightarrow> (\<exists>pre post. s = pre @ q @ post)"
proof (induction s)
  case Nil
  then show ?case by simp
next
  case (Cons c s)
  show ?case
  proof
    assume "includesStr (c # s) q"
    then consider "startsWith (c # s) q" | "includesStr s q" by auto
    then show "\<exists>pre post. c # s = pre @ q @ post"
    proof cases
      case 1
      then obtain t where "c # s = q @ t" by (auto simp: startsWith_iff)
      then have "c # s = [] @ q @ t" by simp
      then show ?thesis by blast
    next
      case 2
      with Cons.IH obtain pre post where "s = pre @ q @ post" by auto
      then have "c # s = (c # pre) @ q @ post" by simp
      then show ?thesis by blast
    qed
  next
    assume "\<exists>pre post. c # s = pre @ q @ post"
    then obtain pre post where e: "c # s = pre @ q @ post" by auto
    show "includesStr (c # s) q"
    proof (cases pre)
      case Nil
      with e have "startsWith (c # s) q" by (auto simp: startsWith_iff)
      then show ?thesis by simp
    next
      case (Cons d pre')
      with e have "s = pre' @ q @ post" by simp
      with Cons.IH have "includesStr s q" by blast
      then show ?thesis by simp
    qed
  qed
qed

lemma digit_not_space: "isDigit c \<Longrightarrow> \<not> isWhiteSpace c"
  by (auto simp: isDigit_def isWhiteSpace_def)

lemma trim_digits:
  assumes "\<forall>c \<in> set s. isDigit c"
  shows "trim s = s"
proof -
  have a: "dropWhile isWhiteSpace s = s"
    using assms by (cases s) (auto simp: digit_not_space)
  have b: "dropWhile isWhiteSpace (rev s) = rev s"
    using assms by (cases "rev s") (auto simp: digit_not_space dest!: arg_cong [where f = set])
  show ?thesis by (simp add: trim_def a b)
qed

text \<open>Rounding to a double.\<close>

lemma pow2_nonneg: "0 \<le> k \<Longrightarrow> pow2 k = of_int (2 ^ nat k)"
  by (simp add: pow2_def)

lemma roundHalfEven_nonneg: "0 \<le> x \<Longrightarrow> 0 \<le> roundHalfEven x"
  by (auto simp: roundHalfEven_def Let_def intro: add_nonneg_nonneg)

lemma bitlen_large:
  assumes "9007199254740992 < a"
  shows "54 \<le> bitlen a"
proof (rule ccontr)
  assume "\<not> 54 \<le> bitlen a"
  then have b: "bitlen a \<le> 53" by simp
  from assms have "0 < a" by simp
  then have "a < 2 ^ nat (bitlen a)" by (rule bitlen_bounds [THEN conjunct2])
  also have "\<dots> \<le> (2 :: int) ^ 53"
    using b by (intro power_increasing) simp_all
  finally show False using assms by simp
qed

lemma binaryExponent_large:
  assumes "9007199254740992 < a"
  shows "52 \<le> binaryExponent (of_int a)"
proof -
  have "bitlen (1 :: int) = 1" by (simp add: bitlen_alt_def)
  with bitlen_large [OF assms] show ?thesis
    by (simp add: binaryExponent_def Let_def quotient_of_int)
qed

lemma roundPositive_whole:
  assumes "9007199254740992 < a"
  shows "roundPositive (of_int a) = PosInf
       \<or> (\<exists>m. 0 \<le> m \<and> roundPositive (of_int a) = Fin (of_int m))"
proof -
  define e where "e = max (binaryExponent (of_int a)) (- 1022)"
  define k where "k = nat (e - 52)"
  define m where "m = roundHalfEven (of_int a / pow2 (e - 52))"
  have e: "0 \<le> e - 52"
    using binaryExponent_large [OF assms] by (simp add: e_def)
  then have ulp: "pow2 (e - 52) = of_int (2 ^ k)"
    by (simp add: pow2_nonneg k_def)
  have "0 \<le> (of_int a :: rat) / pow2 (e - 52)"
    using assms by (simp add: ulp)
  then have m: "0 \<le> m" unfolding m_def by (rule roundHalfEven_nonneg)
  have r: "of_int m * pow2 (e - 52) = (of_int (m * 2 ^ k) :: rat)"
    by (simp add: ulp)
  have "roundPositive (of_int a) =
          (if pow2 1024 \<le> of_int (m * 2 ^ k) then PosInf else Fin (of_int (m * 2 ^ k)))"
    unfolding roundPositive_def Let_def e_def [symmetric] m_def [symmetric] r ..
  moreover have "0 \<le> m * 2 ^ k" using m by simp
  ultimately show ?thesis by auto
qed

lemma toDouble_exact:
  "\<bar>a\<bar> \<le> 9007199254740992 \<Longrightarrow> toDouble (of_int a) = Fin (of_int a)"
proof -
  assume "\<bar>a\<bar> \<le> 9007199254740992"
  then have "\<bar>of_int a :: rat\<bar> \<le> 9007199254740992"
    by (metis of_int_abs of_int_le_iff of_int_numeral)
  then show ?thesis by (simp add: toDouble_def)
qed

lemma toDouble_whole:
  assumes "0 \<le> a"
  shows "toDouble (of_int a) = PosInf \<or> (\<exists>m. 0 \<le> m \<and> toDouble (of_int a) = Fin (of_int m))"
proof (cases "a \<le> 9007199254740992")
  case True
  with assms have "toDouble (of_int a) = Fin (of_int a)"
    by (intro toDouble_exact) simp
  with assms show ?thesis by blast
next
  case False
  then have big: "9007199254740992 < a" by simp
  then have "\<not> \<bar>of_int a :: rat\<bar> \<le> 9007199254740992"
    by (metis abs_of_nonneg assms of_int_0_le_iff of_int_le_iff of_int_numeral not_le)
  moreover have "(0 :: rat) < of_int a" using big by simp
  ultimately have "toDouble (of_int a) = roundPositive (of_int a)"
    by (simp add: toDouble_def)
  with roundPositive_whole [OF big] show ?thesis by simp
qed

lemma digitVal_nonneg: "isDigit c \<Longrightarrow> 0 \<le> digitVal c"
  by (auto simp: isDigit_def digitVal_def)

lemma digitsVal_nonneg_aux:
  "\<forall>c \<in> set s. isDigit c \<Longrightarrow> 0 \<le> a \<Longrightarrow> 0 \<le> foldl (\<lambda>a c. 10 * a + digitVal c) a s"
  by (induction s arbitrary: a) (simp_all add: digitVal_nonneg)

lemma digitsVal_nonneg: "\<forall>c \<in> set s. isDigit c \<Longrightarrow> 0 \<le> digitsVal s"
  by (simp add: digitsVal_def digitsVal_nonneg_aux)

lemma pow2_powi: "pow2 e = 2 powi e"
  by (simp add: pow2_def power_int_def power_one_over inverse_eq_divide)

lemma pow2_pos: "0 < pow2 e"
  by (simp add: pow2_powi)

lemma pow2_add: "pow2 (x + y) = pow2 x * pow2 y"
  by (simp add: pow2_powi power_int_add)

lemma pow2_mono: "x \<le> y \<Longrightarrow> pow2 x \<le> pow2 y"
  by (simp add: pow2_powi power_int_increasing)

lemma roundHalfEven_floor: "\<lfloor>x\<rfloor> \<le> roundHalfEven x"
  by (simp add: roundHalfEven_def Let_def)

lemma binaryExponent_le:
  assumes "0 < v"
  shows "pow2 (binaryExponent v) \<le> v"
proof -
  obtain a b where q: "quotient_of v = (a, b)" by (cases "quotient_of v")
  then have b: "0 < b" by (rule quotient_of_denom_pos)
  have v: "v = of_int a / of_int b" using q by (rule quotient_of_div)
  have a: "0 < a"
    using assms b unfolding v by (simp add: zero_less_divide_iff)
  from bitlen_bounds [OF a] have la: "2 ^ nat (bitlen a - 1) \<le> a" by simp
  from bitlen_bounds [OF b] have lb: "b < 2 ^ nat (bitlen b)" by simp
  have pa: "1 \<le> bitlen a" using a bitlen_eq_zero_iff [of a] bitlen_nonneg [of a] by linarith
  have "pow2 (bitlen a - bitlen b - 1) = pow2 (bitlen a - 1) * pow2 (- bitlen b)"
    using pow2_add [of "bitlen a - 1" "- bitlen b"] by (simp add: algebra_simps)
  also have "\<dots> = of_int (2 ^ nat (bitlen a - 1)) / of_int (2 ^ nat (bitlen b))"
    using pa bitlen_nonneg [of b] by (auto simp: pow2_def)
  also have "\<dots> \<le> of_int a / of_int b"
    using la lb b a by (intro frac_le) simp_all
  finally have low: "pow2 (bitlen a - bitlen b - 1) \<le> v" unfolding v .
  show ?thesis
    using low q by (simp add: binaryExponent_def Let_def)
qed

lemma roundPositive_overflow:
  assumes "pow2 1024 \<le> v"
  shows "roundPositive v = PosInf"
proof -
  define e where "e = max (binaryExponent v) (- 1022)"
  define m where "m = roundHalfEven (v / pow2 (e - 52))"
  have vpos: "0 < v" using assms pow2_pos [of 1024] by linarith
  have "pow2 1024 \<le> of_int m * pow2 (e - 52)"
  proof (cases "e - 52 \<le> 1024")
    case True
    define n :: int where "n = 2 ^ nat (1024 - (e - 52))"
    have "pow2 1024 = pow2 (1024 - (e - 52)) * pow2 (e - 52)"
      using pow2_add [of "1024 - (e - 52)" "e - 52"] by simp
    then have split: "pow2 1024 = of_int n * pow2 (e - 52)"
      using True by (simp add: pow2_def n_def)
    then have "of_int n \<le> v / pow2 (e - 52)"
      using assms pow2_pos [of "e - 52"] by (simp add: pos_le_divide_eq)
    then have "n \<le> \<lfloor>v / pow2 (e - 52)\<rfloor>" by (simp add: le_floor_iff)
    also have "\<dots> \<le> m" unfolding m_def by (rule roundHalfEven_floor)
    finally have "(of_int n :: rat) \<le> of_int m" by simp
    then show ?thesis
      unfolding split using pow2_pos [of "e - 52"] by (simp add: mult_right_mono)
  next
    case False
    then have eb: "e = binaryExponent v" by (simp add: e_def max_def split: if_splits)
    have "pow2 e \<le> v" unfolding eb using vpos by (rule binaryExponent_le)
    moreover have pe: "pow2 e = of_int (2 ^ 52) * pow2 (e - 52)"
      using pow2_add [of 52 "e - 52"] by (simp add: pow2_def)
    ultimately have "of_int (2 ^ 52) \<le> v / pow2 (e - 52)"
      using pow2_pos [of "e - 52"] by (simp add: pos_le_divide_eq)
    then have "2 ^ 52 \<le> \<lfloor>v / pow2 (e - 52)\<rfloor>" by (simp add: le_floor_iff)
    also have "\<dots> \<le> m" unfolding m_def by (rule roundHalfEven_floor)
    finally have "(of_int (2 ^ 52) :: rat) \<le> of_int m" by (simp only: of_int_le_iff)
    then have "pow2 e \<le> of_int m * pow2 (e - 52)"
      unfolding pe using pow2_pos [of "e - 52"] by (simp add: mult_right_mono)
    moreover have "pow2 1024 \<le> pow2 e" using False by (intro pow2_mono) simp
    ultimately show ?thesis by simp
  qed
  then show ?thesis
    by (simp add: roundPositive_def Let_def e_def [symmetric] m_def [symmetric])
qed

lemma toDouble_overflow:
  assumes "pow2 1024 \<le> v"
  shows "toDouble v = PosInf"
proof -
  have "pow2 54 \<le> pow2 1024" by (intro pow2_mono) simp
  moreover have "pow2 54 = 18014398509481984" by (simp add: pow2_def)
  ultimately have "18014398509481984 \<le> v" using assms by simp
  then have "\<not> \<bar>v\<bar> \<le> 9007199254740992" "0 < v" by simp_all
  then show ?thesis
    using roundPositive_overflow [OF assms] by (simp add: toDouble_def)
qed

lemma toDouble_overflow_int: "2 ^ 1024 \<le> a \<Longrightarrow> toDouble (of_int a) = PosInf"
  by (rule toDouble_overflow) (simp add: pow2_def)

lemma toDouble_not_NaN: "0 \<le> a \<Longrightarrow> toDouble (of_int a) \<noteq> NaN"
  using toDouble_whole [of a] by auto

text \<open>Rounding at work: above \<open>2 ^ 53\<close> and in a fraction.\<close>

lemma toDouble_examples:
  "toDouble 9007199254740993 = Fin 9007199254740992
   \<and> toDouble (1 / 10) = Fin (3602879701896397 / 36028797018963968)"
  by code_simp

text \<open>The parsers on a run of digits.\<close>

lemma parseInt10_digits:
  assumes "ds \<noteq> []" and "\<forall>c \<in> set ds. isDigit c"
  shows "parseInt10 ds = toDouble (of_int (digitsVal ds))"
proof -
  obtain c cs where ds: "ds = c # cs" using assms(1) by (cases ds) auto
  with assms(2) have c: "isDigit c" by simp
  then have nw: "\<not> isWhiteSpace c" and ns: "c \<noteq> CHR ''-''" "c \<noteq> CHR ''+''"
    by (auto simp: isDigit_def isWhiteSpace_def)
  have tk: "takeWhile isDigit ds = ds"
    using assms(2) by (simp add: takeWhile_eq_all_conv)
  show ?thesis
    using nw ns tk assms(1) by (simp add: parseInt10_def trimStart_def startsWith_def ds Let_def)
qed

lemma parseFormattedNumber_whole:
  "parseFormattedNumber v =
     (if removeNonDigits v = [] then Fin 0
      else toDouble (of_int (digitsVal (removeNonDigits v))))"
proof (cases "removeNonDigits v = []")
  case True
  then show ?thesis
    by (simp add: parseFormattedNumber_def parseInt10_def trimStart_def startsWith_def Let_def)
next
  case False
  have digits: "\<forall>c \<in> set (removeNonDigits v). isDigit c"
    by (simp add: removeNonDigits_def)
  have "toDouble (of_int (digitsVal (removeNonDigits v))) \<noteq> NaN"
    using digitsVal_nonneg [OF digits] by (rule toDouble_not_NaN)
  with parseInt10_digits [OF False digits] False show ?thesis
    by (simp add: parseFormattedNumber_def Let_def)
qed

lemma Number_digits:
  assumes "s \<noteq> []" and "\<forall>c \<in> set s. isDigit c"
  shows "Number s = toDouble (of_int (digitsVal s))"
proof -
  obtain c cs where s: "s = c # cs" using assms(1) by (cases s) auto
  have c: "isDigit c" using assms(2) s by simp
  have nx: "\<not> isDigit (CHR ''x'')" "\<not> isDigit (CHR ''X'')" "\<not> isDigit (CHR ''o'')"
    "\<not> isDigit (CHR ''O'')" "\<not> isDigit (CHR ''b'')" "\<not> isDigit (CHR ''B'')"
    "\<not> isDigit (CHR ''-'')" "\<not> isDigit (CHR ''+'')" "\<not> isDigit (CHR ''I'')"
    by (simp_all add: isDigit_def)
  have pre: "\<not> startsWith s ''0x''" "\<not> startsWith s ''0X''" "\<not> startsWith s ''0o''"
    "\<not> startsWith s ''0O''" "\<not> startsWith s ''0b''" "\<not> startsWith s ''0B''"
    using assms(2) nx s by (cases cs; auto simp: startsWith_def)+
  have sign: "\<not> startsWith s ''-''" "\<not> startsWith s ''+''"
    using c nx s by (auto simp: startsWith_def)
  have inf: "s \<noteq> ''Infinity''"
    using c nx s by auto
  have tk: "takeWhile isDigit s = s" "dropWhile isDigit s = []"
    using assms(2) by (simp_all add: takeWhile_eq_all_conv dropWhile_eq_Nil_conv)
  have dec: "unsignedDecimal s = Some (of_int (digitsVal s))"
    using assms(1)
    by (simp add: unsignedDecimal_def tk startsWith_def exponentPart_def pow10_def Let_def)
  show ?thesis
    using assms(1) pre sign inf dec
    by (simp add: Number_def trim_digits [OF assms(2)] Let_def)
qed

lemma Number_empty: "Number [] = Fin 0"
  by (simp add: Number_def trim_def)

lemma Number_zero: "Number ''0'' = Fin 0"
  by (simp add: Number_digits isDigit_def digitsVal_def digitVal_def toDouble_def)

lemma cleanString_code:
  "trim code \<noteq> [] \<Longrightarrow> cleanString (Some code) = toLowerCase (stripLeadingQuote (trim code))"
  by (auto simp: cleanString_def truthy_def trim_def)

lemma cleanString_Some: "cleanString (Some s) = toLowerCase (stripLeadingQuote (trim s))"
  by (simp add: cleanString_def truthy_def trim_def stripLeadingQuote_def startsWith_def
      toLowerCase_def)

subsection \<open>Loading\<close>

text \<open>
  The example states are what the loaders make of the example rows, and the two counted
  record lists are what scans make of loaded ones.
\<close>

lemma scenarioState_loaded:
  "handleFileImportForExcelCheck noCategory exColumns scenarioRows (exScanState []) = scenarioState"
  by code_simp

lemma duplicateState_loaded:
  "handleFileImportForExcelCheck noCategory exColumns duplicateRows (exScanState []) = duplicateState"
  by code_simp

lemma crossedState_loaded:
  "handleFileImportForExcelCheck noCategory exColumns crossedRows (exScanState []) = crossedState"
  by code_simp

lemma crossedInventory_loaded:
  "inventoryItems (handleFileImport noCategory exColumns (rev crossedRows) (exInventory [] ''all'' []))
     = crossedInventory"
  by code_simp

lemma duplicateInventory_loaded:
  "inventoryItems (handleFileImport noCategory exColumns duplicateCaseRows (exInventory [] ''all'' []))
     = duplicateInventory"
  by code_simp

lemma sweepState_loaded:
  "(handleFileImport noCategory exColumns sweepRows (exInventory [] ''all'' []))
     \<lparr> imeiFilter := ''with_imei'' \<rparr> = sweepState"
  by code_simp


text \<open>
  A quantity cell that is not a number is loaded as NaN by both loaders, where the price of
  the same row is a whole number.
\<close>

lemma quantity_of_text_is_NaN:
  "quantity (inventoryItemOfRow noCategory exColumns (exRows ! 1)) = NaN
   \<and> fileQuantity (excelCheckItemOfRow noCategory exColumns (exRows ! 1)) = NaN
   \<and> price (inventoryItemOfRow noCategory exColumns (exRows ! 1)) = Fin 15"
  by code_simp

subsection \<open>Toggling, filtering and navigation\<close>

lemma toggleChecked_length: "length (toggleChecked i items) = length items"
  by (simp add: toggleChecked_def)

lemma toggleChecked_nth:
  "j < length items \<Longrightarrow>
     toggleChecked i items ! j =
       (if j = i then (items ! j) \<lparr> checked := \<not> checked (items ! j) \<rparr> else items ! j)"
  by (simp add: toggleChecked_def)

lemma toggleChecked_twice: "toggleChecked i (toggleChecked i items) = items"
  by (rule nth_equalityI) (simp_all add: toggleChecked_length toggleChecked_nth)

lemma filtered_member:
  "(item, idx) \<in> set (filteredInventoryItems a b c items) \<Longrightarrow>
     idx < length items \<and> item = items ! idx"
  by (auto simp: filteredInventoryItems_def set_zip)

lemma filtered_member_iff:
  "(item, idx) \<in> set (filteredInventoryItems a b c items) \<longleftrightarrow>
     idx < length items \<and> item = items ! idx \<and> passesFilters a b c item"
  by (auto simp: filteredInventoryItems_def passesFilters_def set_zip)

lemma filtered_distinct: "distinct (map snd (filteredInventoryItems a b c items))"
  by (simp add: filteredInventoryItems_def distinct_map_filter)



declare firstUncheckedIn.simps [simp del]

lemma firstUncheckedIn_find:
  "hi \<le> length xs \<Longrightarrow>
     map_option (\<lambda>j. xs ! j) (firstUncheckedIn xs lo hi) =
       find (\<lambda>p. \<not> checked (fst p)) (take (hi - lo) (drop lo xs))"
proof (induction xs lo hi rule: firstUncheckedIn.induct)
  case (1 xs i hi)
  show ?case
  proof (cases "i < hi")
    case True
    with "1.prems" have il: "i < length xs" by simp
    have split: "take (hi - i) (drop i xs) = xs ! i # take (hi - Suc i) (drop (Suc i) xs)"
      using True il by (metis Cons_nth_drop_Suc Suc_diff_Suc take_Suc_Cons)
    show ?thesis
    proof (cases "checked (fst (xs ! i))")
      case True
      with \<open>i < hi\<close> "1.IH" "1.prems" split show ?thesis
        by (simp add: firstUncheckedIn.simps [of xs i hi])
    next
      case False
      with \<open>i < hi\<close> split show ?thesis
        by (simp add: firstUncheckedIn.simps [of xs i hi])
    qed
  next
    case False
    then show ?thesis by (simp add: firstUncheckedIn.simps [of xs i hi])
  qed
qed

lemma nextUncheckedTarget_rotated:
  assumes k: "findIndex (\<lambda>(item, idx). idx = i) F = Some k"
  shows "nextUncheckedTarget i F =
           map_option snd (find (\<lambda>p. \<not> checked (fst p)) (drop (Suc k) F @ take k F))"
proof -
  from findIndex_Some [OF k] have kl: "k < length F" by simp
  have a: "find (\<lambda>p. \<not> checked (fst p)) (drop (Suc k) F) =
             map_option (\<lambda>j. F ! j) (firstUncheckedIn F (k + 1) (length F))"
    using firstUncheckedIn_find [of "length F" F "k + 1"] by simp
  have b: "find (\<lambda>p. \<not> checked (fst p)) (take k F) =
             map_option (\<lambda>j. F ! j) (firstUncheckedIn F 0 k)"
    using firstUncheckedIn_find [of k F 0] kl by simp
  show ?thesis
    unfolding find_append_or a b
    by (simp add: nextUncheckedTarget_def k split: option.splits)
qed

lemma nextUncheckedTarget_absent:
  "findIndex (\<lambda>(item, idx). idx = i) F = None \<Longrightarrow> nextUncheckedTarget i F = None"
  by (simp add: nextUncheckedTarget_def)

subsection \<open>Searching\<close>

lemma resolveSearch_first_exact:
  assumes "m < length items"
    and "exactKeyMatch q (items ! m)"
    and "\<forall>k<m. \<not> exactKeyMatch q (items ! k)"
  shows "resolveSearch items q = Some (items ! m)"
proof -
  have "find (exactKeyMatch q) items = Some (items ! m)"
    using assms by (auto simp: find_Some_iff)
  then show ?thesis by (simp add: resolveSearch_def)
qed

lemma resolveSearch_none:
  assumes "\<forall>item \<in> set items.
             \<not> exactKeyMatch q item \<and> \<not> includesStr (toLowerCase (productName item)) q"
  shows "resolveSearch items q = None"
proof -
  have "find (exactKeyMatch q) items = None"
    using assms by (simp add: find_None_iff)
  moreover have "filter (\<lambda>item. includesStr (toLowerCase (productName item)) q) items = []"
    using assms by (simp add: filter_empty_conv)
  ultimately show ?thesis by (simp add: resolveSearch_def)
qed

lemma handleSearchSubmit_nonblank:
  "trim (searchQuery st) \<noteq> [] \<Longrightarrow>
     handleSearchSubmit st =
       st \<lparr> searchHistory :=
              (trim (searchQuery st),
               resolveSearch (inventoryItems st) (toLowerCase (trim (searchQuery st))))
              # searchHistory st,
            searchQuery := [],
            isSuggestionsVisible := False \<rparr>"
  by (simp add: handleSearchSubmit_def Let_def)

subsection \<open>Scanning\<close>

lemma scanFoundIndex_code_first:
  assumes "i < length es"
    and "cleanString (Some (productCode (es ! i))) = q"
    and "\<forall>k<i. cleanString (Some (productCode (es ! k))) \<noteq> q"
  shows "scanFoundIndex es q = Some i"
  using assms by (simp add: scanFoundIndex_def findIndex_first)

lemma scanFoundIndex_imei_fallback:
  assumes "\<forall>x \<in> set es. cleanString (Some (productCode x)) \<noteq> q"
    and "i < length es"
    and "cleanString (imei (es ! i)) = q"
    and "\<forall>k<i. cleanString (imei (es ! k)) \<noteq> q"
  shows "scanFoundIndex es q = Some i"
proof -
  have "findIndex (\<lambda>item. cleanString (Some (productCode item)) = q) es = None"
    using assms(1) by (simp add: findIndex_None_iff)
  moreover have "findIndex (\<lambda>item. cleanString (imei item) = q) es = Some i"
    using assms(2-4) by (intro findIndex_first) auto
  ultimately show ?thesis by (simp add: scanFoundIndex_def)
qed

lemma scanFoundIndex_bound: "scanFoundIndex es q = Some i \<Longrightarrow> i < length es"
  by (auto simp: scanFoundIndex_def split: option.splits dest: findIndex_Some)

lemma handleScanSubmit_found:
  assumes "trim (scanQuery st) \<noteq> []"
    and "scanFoundIndex (excelCheckItems st)
           (toLowerCase (stripLeadingQuote (trim (scanQuery st)))) = Some i"
  shows "handleScanSubmit st =
           st \<lparr> excelCheckItems := (excelCheckItems st)
                  [i := (excelCheckItems st ! i)
                     \<lparr> actualQuantity :=
                         Some ((case actualQuantity (excelCheckItems st ! i) of
                                  None \<Rightarrow> 0 | Some n \<Rightarrow> n) + 1) \<rparr>],
                scanStatus := (Success, Updated (productNameX (excelCheckItems st ! i))),
                lastScannedIndex := Some i,
                scanQuery := [] \<rparr>"
  using assms by (simp add: handleScanSubmit_def Let_def)

lemma handleScanSubmit_not_found:
  assumes "trim (scanQuery st) \<noteq> []"
    and "scanFoundIndex (excelCheckItems st)
           (toLowerCase (stripLeadingQuote (trim (scanQuery st)))) = None"
  shows "handleScanSubmit st =
           st \<lparr> scanStatus := (Error, NotFound (trim (scanQuery st))), scanQuery := [] \<rparr>"
  using assms by (simp add: handleScanSubmit_def Let_def)

lemma handleScanSubmit_blank: "trim (scanQuery st) = [] \<Longrightarrow> handleScanSubmit st = st"
  by (simp add: handleScanSubmit_def Let_def)

lemma scan_codes_kept:
  "map productCode (excelCheckItems (scan q st)) = map productCode (excelCheckItems st)"
proof (cases "trim q = []")
  case True
  then show ?thesis by (simp add: scan_def handleScanSubmit_blank)
next
  case False
  show ?thesis
  proof (cases "scanFoundIndex (excelCheckItems st) (toLowerCase (stripLeadingQuote (trim q)))")
    case None
    with False show ?thesis
      by (simp add: scan_def handleScanSubmit_not_found)
  next
    case (Some i)
    with False show ?thesis
      by (simp add: scan_def handleScanSubmit_found map_update list_update_same_conv
          scanFoundIndex_bound)
  qed
qed

lemma scan_first_occurrence:
  assumes i: "i < length (excelCheckItems st)"
    and q: "trim q \<noteq> []"
    and hit: "cleanString (Some (productCode (excelCheckItems st ! i))) =
                toLowerCase (stripLeadingQuote (trim q))"
    and first: "\<forall>k<i. cleanString (Some (productCode (excelCheckItems st ! k))) \<noteq>
                  toLowerCase (stripLeadingQuote (trim q))"
  shows "excelCheckItems (scan q st) =
           (excelCheckItems st)
             [i := (excelCheckItems st ! i)
                \<lparr> actualQuantity :=
                    Some ((case actualQuantity (excelCheckItems st ! i) of
                             None \<Rightarrow> 0 | Some n \<Rightarrow> n) + 1) \<rparr>]"
proof -
  have "scanFoundIndex (excelCheckItems st) (toLowerCase (stripLeadingQuote (trim q))) = Some i"
    using i hit first by (rule scanFoundIndex_code_first)
  then show ?thesis
    using q by (simp add: scan_def handleScanSubmit_found)
qed

lemma scan_repeated:
  assumes i: "i < length (excelCheckItems st)"
    and q: "trim q \<noteq> []"
    and hit: "cleanString (Some (productCode (excelCheckItems st ! i))) =
                toLowerCase (stripLeadingQuote (trim q))"
    and first: "\<forall>k<i. cleanString (Some (productCode (excelCheckItems st ! k))) \<noteq>
                  toLowerCase (stripLeadingQuote (trim q))"
  shows "excelCheckItems ((scan q ^^ Suc m) st) =
           (excelCheckItems st)
             [i := (excelCheckItems st ! i)
                \<lparr> actualQuantity :=
                    Some ((case actualQuantity (excelCheckItems st ! i) of
                             None \<Rightarrow> 0 | Some n \<Rightarrow> n) + 1 + int m) \<rparr>]"
proof (induction m)
  case 0
  show ?case using scan_first_occurrence [OF i q hit first] by simp
next
  case (Suc m)
  let ?s = "(scan q ^^ Suc m) st"
  let ?b = "case actualQuantity (excelCheckItems st ! i) of None \<Rightarrow> 0 | Some n \<Rightarrow> n"
  have items: "excelCheckItems ?s =
      (excelCheckItems st) [i := (excelCheckItems st ! i) \<lparr> actualQuantity := Some (?b + 1 + int m) \<rparr>]"
    by (rule Suc.IH)
  have len: "i < length (excelCheckItems ?s)" using items i by simp
  have code: "productCode (excelCheckItems ?s ! k) = productCode (excelCheckItems st ! k)"
    if "k < length (excelCheckItems st)" for k
    using that items by (cases "k = i") simp_all
  have hit': "cleanString (Some (productCode (excelCheckItems ?s ! i))) =
                toLowerCase (stripLeadingQuote (trim q))"
    using hit code [OF i] by simp
  have first': "\<forall>k<i. cleanString (Some (productCode (excelCheckItems ?s ! k))) \<noteq>
                  toLowerCase (stripLeadingQuote (trim q))"
    using first code i by simp
  have "excelCheckItems ((scan q ^^ Suc (Suc m)) st) = excelCheckItems (scan q ?s)"
    by simp
  also have "\<dots> = (excelCheckItems ?s)
             [i := (excelCheckItems ?s ! i)
                \<lparr> actualQuantity :=
                    Some ((case actualQuantity (excelCheckItems ?s ! i) of
                             None \<Rightarrow> 0 | Some n \<Rightarrow> n) + 1) \<rparr>]"
    by (rule scan_first_occurrence [OF len q hit' first'])
  also have "\<dots> = (excelCheckItems st)
             [i := (excelCheckItems st ! i) \<lparr> actualQuantity := Some (?b + 1 + int (Suc m)) \<rparr>]"
    unfolding items using i by simp
  finally show ?case .
qed

text \<open>
  With a query whose normalized form is not empty, a scan that matches no product code and
  no IMEI changes no record: it sets the error status with the trimmed query and clears the
  scan field.
\<close>

lemma failed_scan_changes_no_record:
  assumes "toLowerCase (stripLeadingQuote (trim q)) \<noteq> []"
    and "\<forall>item \<in> set (excelCheckItems st). \<not> matchesSomeKey q item"
  shows "scan q st = st \<lparr> scanStatus := (Error, NotFound (trim q)), scanQuery := [] \<rparr>"
proof -
  let ?sq = "toLowerCase (stripLeadingQuote (trim q))"
  have tq: "trim q \<noteq> []"
    using assms(1) by (auto simp: toLowerCase_def stripLeadingQuote_def)
  have codes: "\<forall>item \<in> set (excelCheckItems st). cleanString (Some (productCode item)) \<noteq> ?sq"
    using assms(2) by (simp add: matchesSomeKey_def cleanString_Some)
  have imeis: "\<forall>item \<in> set (excelCheckItems st). cleanString (imei item) \<noteq> ?sq"
  proof
    fix item assume item: "item \<in> set (excelCheckItems st)"
    show "cleanString (imei item) \<noteq> ?sq"
    proof (cases "imei item")
      case None
      then have "cleanString (imei item) = []" by (simp add: cleanString_def truthy_def)
      with assms(1) show ?thesis by simp
    next
      case (Some k)
      with assms(2) item show ?thesis
        by (auto simp: matchesSomeKey_def cleanString_Some)
    qed
  qed
  have "findIndex (\<lambda>item. cleanString (Some (productCode item)) = ?sq) (excelCheckItems st) = None"
    using codes by (simp add: findIndex_None_iff)
  moreover
  have "findIndex (\<lambda>item. cleanString (imei item) = ?sq) (excelCheckItems st) = None"
    using imeis by (simp add: findIndex_None_iff)
  ultimately have "scanFoundIndex (excelCheckItems st) ?sq = None"
    by (simp add: scanFoundIndex_def)
  then show ?thesis
    using tq handleScanSubmit_not_found [of "st \<lparr> scanQuery := q \<rparr>"]
    by (simp add: scan_def)
qed

lemma surplusHeavy_scanned:
  "excelCheckItems
     ((scan ''C3'' ^^ 2) ((scan ''B2'' ^^ 2) ((scan ''A1'' ^^ 2)
        (exScanState [exCheckItem ''A1'' None 1, exCheckItem ''B2'' None 1,
                      exCheckItem ''C3'' None 4])))) = surplusHeavy"
  by code_simp

lemma deficitHeavy_scanned:
  "excelCheckItems
     ((scan ''C3'' ^^ 2) ((scan ''B2'' ^^ 2) ((scan ''A1'' ^^ 2)
        (exScanState [exCheckItem ''A1'' None 3, exCheckItem ''B2'' None 3,
                      exCheckItem ''C3'' None 0])))) = deficitHeavy"
  by code_simp

subsection \<open>Statistics\<close>





section \<open>The claims\<close>

text \<open>
  C1 as stated fails: where one record has X9 as its IMEI and another has X9 as its product
  code, the scan resolves to the record with the product code, and the search to whichever
  of the two comes first in the list.
\<close>

theorem alternate_key_precedence_counterexample:
  "cleanString (imei (excelCheckItems crossedState ! 0)) = ''x9''
   \<and> cleanString (Some (productCode (excelCheckItems crossedState ! 1))) = ''x9''
   \<and> scanFoundIndex (excelCheckItems crossedState) ''x9'' = Some 1
   \<and> lastScannedIndex (scan ''X9'' crossedState) = Some 1
   \<and> hasImei (crossedInventory ! 1)
   \<and> qrCode (crossedInventory ! 1) = ''X9''
   \<and> \<not> hasImei (crossedInventory ! 0)
   \<and> productCodeForSearch (crossedInventory ! 0) = ''X9''
   \<and> searchHistory (handleSearchSubmit (exInventory crossedInventory ''all'' ''X9'')) =
       [(''X9'', Some (crossedInventory ! 0))]"
  by code_simp

text \<open>
  C1, amended. The scan gives the product code precedence: when the normalized query is the
  normalized product code of some record, the scan resolves to the first such record in load
  order, whatever the IMEIs are; only when no product code matches does a non-empty query
  resolve to the first record whose IMEI matches. The search gives neither key precedence: it
  resolves to the first record in load order whose QR code (the IMEI when there is one, else
  the product code) or product code is the query.
\<close>

theorem scan_prefers_product_code:
  "(\<forall>es q i. i < length es \<and> cleanString (Some (productCode (es ! i))) = q
        \<and> (\<forall>k<i. cleanString (Some (productCode (es ! k))) \<noteq> q)
      \<longrightarrow> scanFoundIndex es q = Some i)
   \<and> (\<forall>es q i. q \<noteq> [] \<and> (\<forall>x \<in> set es. cleanString (Some (productCode x)) \<noteq> q)
        \<and> i < length es \<and> cleanString (imei (es ! i)) = q
        \<and> (\<forall>k<i. cleanString (imei (es ! k)) \<noteq> q)
      \<longrightarrow> scanFoundIndex es q = Some i)
   \<and> (\<forall>items q m. m < length items \<and> exactKeyMatch q (items ! m)
        \<and> (\<forall>k<m. \<not> exactKeyMatch q (items ! k))
      \<longrightarrow> resolveSearch items q = Some (items ! m))"
proof (intro conjI allI impI)
  fix es :: "ExcelCheckItem list" and q i
  assume "i < length es \<and> cleanString (Some (productCode (es ! i))) = q
        \<and> (\<forall>k<i. cleanString (Some (productCode (es ! k))) \<noteq> q)"
  then show "scanFoundIndex es q = Some i"
    by (intro scanFoundIndex_code_first) simp_all
next
  fix es :: "ExcelCheckItem list" and q i
  assume "q \<noteq> [] \<and> (\<forall>x \<in> set es. cleanString (Some (productCode x)) \<noteq> q)
        \<and> i < length es \<and> cleanString (imei (es ! i)) = q
        \<and> (\<forall>k<i. cleanString (imei (es ! k)) \<noteq> q)"
  then show "scanFoundIndex es q = Some i"
    by (intro scanFoundIndex_imei_fallback) simp_all
next
  fix items :: "InventoryItem list" and q m
  assume "m < length items \<and> exactKeyMatch q (items ! m)
        \<and> (\<forall>k<m. \<not> exactKeyMatch q (items ! k))"
  then show "resolveSearch items q = Some (items ! m)"
    by (intro resolveSearch_first_exact) simp_all
qed

theorem scan_prefers_product_code_witness:
  "scanFoundIndex (excelCheckItems crossedState) ''x9'' = Some 1
   \<and> scanFoundIndex (excelCheckItems crossedState) ''p1'' = Some 0
   \<and> resolveSearch crossedInventory ''x9'' = Some (crossedInventory ! 0)"
proof -
  have a: "1 < length (excelCheckItems crossedState)
      \<and> cleanString (Some (productCode (excelCheckItems crossedState ! 1))) = ''x9''
      \<and> (\<forall>k<1. cleanString (Some (productCode (excelCheckItems crossedState ! k))) \<noteq> ''x9'')"
    unfolding all_less_one by code_simp
  have b: "0 < length (excelCheckItems crossedState)
      \<and> cleanString (Some (productCode (excelCheckItems crossedState ! 0))) = ''p1''
      \<and> (\<forall>k<0. cleanString (Some (productCode (excelCheckItems crossedState ! k))) \<noteq> ''p1'')"
    unfolding all_less_zero by code_simp
  have c: "0 < length crossedInventory \<and> exactKeyMatch ''x9'' (crossedInventory ! 0)
      \<and> (\<forall>k<0. \<not> exactKeyMatch ''x9'' (crossedInventory ! k))"
    unfolding all_less_zero by code_simp
  note first_code = scan_prefers_product_code [THEN conjunct1, rule_format]
  note first_any = scan_prefers_product_code [THEN conjunct2, THEN conjunct2, rule_format]
  show ?thesis
    by (intro conjI; (rule first_code [OF a] first_code [OF b] first_any [OF c]))
qed

text \<open>
  C2 as stated fails: a row with no display name is loaded too, under the name N/A, by both
  loaders.
\<close>

theorem nameless_row_loaded_counterexample:
  "length exRows = 2
   \<and> length (rowsWithDisplayName exColumns exRows) = 1
   \<and> length (inventoryItems
        (handleFileImport noCategory exColumns exRows (exInventory [] ''all'' []))) = 2
   \<and> productName (inventoryItems
        (handleFileImport noCategory exColumns exRows (exInventory [] ''all'' [])) ! 1) = ''N/A''
   \<and> length (excelCheckItems
        (handleFileImportForExcelCheck noCategory exColumns exRows (exScanState []))) = 2
   \<and> productNameX (excelCheckItems
        (handleFileImportForExcelCheck noCategory exColumns exRows (exScanState [])) ! 1) = ''N/A''"
  by code_simp

text \<open>
  C2, amended. Each loader produces exactly one record per input row, in input order, and no
  row is dropped: the record of a row has the display name of the row, or N/A when the row
  has none or an empty one.
\<close>

theorem loader_keeps_every_row:
  "map productName (inventoryItems (handleFileImport cat cols rows st)) =
     map (\<lambda>r. orElse (findValue r (colProductName cols)) ''N/A'') rows
   \<and> map productNameX (excelCheckItems (handleFileImportForExcelCheck cat cols rows sc)) =
     map (\<lambda>r. orElse (findValue r (colProductName cols)) ''N/A'') rows
   \<and> length (inventoryItems (handleFileImport cat cols rows st)) = length rows
   \<and> length (excelCheckItems (handleFileImportForExcelCheck cat cols rows sc)) = length rows"
  by (simp add: handleFileImport_def handleFileImportForExcelCheck_def Let_def
      inventoryItemOfRow_def excelCheckItemOfRow_def)

theorem loader_keeps_every_row_witness:
  "map productName
     (inventoryItems (handleFileImport noCategory exColumns exRows (exInventory [] ''all'' []))) =
     [''Pen'', ''N/A'']"
proof -
  have "map (\<lambda>r. orElse (findValue r (colProductName exColumns)) ''N/A'') exRows = [''Pen'', ''N/A'']"
    by code_simp
  with loader_keeps_every_row [of noCategory exColumns exRows "exInventory [] ''all'' []"]
  show ?thesis by simp
qed




text \<open>
  C4 as stated fails for the quantity, which is not parsed the way the price is: only its
  commas are removed and the rest is converted as a number, so the cell 1.5 is loaded as one
  and a half, where stripping the non-digits would give 15.
\<close>

theorem quantity_keeps_fraction_counterexample:
  "quantity (inventoryItemOfRow noCategory exColumns [(''Name'', ''Rice''), (''Qty'', ''1.5'')]) =
     Fin (3 / 2)
   \<and> fileQuantity (excelCheckItemOfRow noCategory exColumns [(''Name'', ''Rice''), (''Qty'', ''1.5'')]) =
     Fin (3 / 2)
   \<and> parseFormattedNumber ''1.5'' = Fin 15"
  by code_simp

text \<open>
  C4, amended. The unit price is parsed by removing every character that is not a digit
  before the integer conversion, and a price with no digit in it is zero. The loaded price is
  never NaN: it is the whole number its digits spell, rounded to a double, that is the number
  itself up to \<open>2 ^ 53\<close>, a whole number that is not negative beyond, and Infinity from
  \<open>2 ^ 1024\<close> on. The expected quantity is parsed by removing the commas only and converting
  the rest as a number: a missing or empty cell gives zero, and a cell of digits and commas
  gives the whole number its digits spell, rounded to a double, that is the number itself up
  to \<open>2 ^ 53\<close>.
\<close>

theorem numeric_fields_parsed:
  assumes "ds = removeNonDigits (orElse (findValue r (colPrice cols)) ''0'')"
    and "p = price (inventoryItemOfRow cat cols r)"
  shows "p = (if ds = [] then Fin 0 else toDouble (of_int (digitsVal ds)))
   \<and> (p = PosInf \<or> (\<exists>m. 0 \<le> m \<and> p = Fin (of_int m)))
   \<and> (digitsVal ds \<le> 2 ^ 53 \<longrightarrow> p = Fin (of_int (digitsVal ds)))
   \<and> (2 ^ 1024 \<le> digitsVal ds \<longrightarrow> p = PosInf)
   \<and> (\<not> truthy (findValue r (colQuantity cols)) \<longrightarrow>
        quantity (inventoryItemOfRow cat cols r) = Fin 0
        \<and> fileQuantity (excelCheckItemOfRow cat cols r) = Fin 0)
   \<and> (\<forall>v. findValue r (colQuantity cols) = Some v \<and> removeCommas v \<noteq> []
          \<and> (\<forall>c \<in> set v. isDigit c \<or> c = CHR '','')
        \<longrightarrow> quantity (inventoryItemOfRow cat cols r) =
              toDouble (of_int (digitsVal (removeCommas v)))
          \<and> fileQuantity (excelCheckItemOfRow cat cols r) =
              toDouble (of_int (digitsVal (removeCommas v)))
          \<and> (digitsVal (removeCommas v) \<le> 2 ^ 53 \<longrightarrow>
               quantity (inventoryItemOfRow cat cols r) = Fin (of_int (digitsVal (removeCommas v)))
               \<and> fileQuantity (excelCheckItemOfRow cat cols r) =
                   Fin (of_int (digitsVal (removeCommas v)))))"
proof -
  have digits: "\<forall>c \<in> set ds. isDigit c"
    by (simp add: assms(1) removeNonDigits_def)
  have nonneg: "0 \<le> digitsVal ds"
    using digits by (rule digitsVal_nonneg)
  have P1: "p = (if ds = [] then Fin 0 else toDouble (of_int (digitsVal ds)))"
    by (simp add: assms inventoryItemOfRow_def Let_def parseFormattedNumber_whole)
  have empty: "digitsVal [] = 0" by (simp add: digitsVal_def)
  have zero: "toDouble 0 = Fin 0" by (simp add: toDouble_def)
  have P2: "p = PosInf \<or> (\<exists>m. 0 \<le> m \<and> p = Fin (of_int m))"
  proof (cases "ds = []")
    case True
    with P1 have "p = Fin (of_int 0)" by simp
    then show ?thesis by blast
  next
    case False
    with P1 toDouble_whole [OF nonneg] show ?thesis by simp
  qed
  have P3: "digitsVal ds \<le> 2 ^ 53 \<longrightarrow> p = Fin (of_int (digitsVal ds))"
  proof
    assume "digitsVal ds \<le> 2 ^ 53"
    with nonneg have "toDouble (of_int (digitsVal ds)) = Fin (of_int (digitsVal ds))"
      by (intro toDouble_exact) simp
    with P1 empty show "p = Fin (of_int (digitsVal ds))"
      by (cases "ds = []") simp_all
  qed
  have P4: "2 ^ 1024 \<le> digitsVal ds \<longrightarrow> p = PosInf"
  proof
    assume big: "2 ^ 1024 \<le> digitsVal ds"
    then have "ds \<noteq> []" using empty by auto
    with P1 toDouble_overflow_int [OF big] show "p = PosInf" by simp
  qed
  have Q1: "\<not> truthy (findValue r (colQuantity cols)) \<longrightarrow>
        quantity (inventoryItemOfRow cat cols r) = Fin 0
        \<and> fileQuantity (excelCheckItemOfRow cat cols r) = Fin 0"
    by (simp add: inventoryItemOfRow_def excelCheckItemOfRow_def Let_def orElse_def
        removeCommas_def Number_zero)
  have Q2: "quantity (inventoryItemOfRow cat cols r) = toDouble (of_int (digitsVal (removeCommas v)))
          \<and> fileQuantity (excelCheckItemOfRow cat cols r) =
              toDouble (of_int (digitsVal (removeCommas v)))
          \<and> (digitsVal (removeCommas v) \<le> 2 ^ 53 \<longrightarrow>
               quantity (inventoryItemOfRow cat cols r) = Fin (of_int (digitsVal (removeCommas v)))
               \<and> fileQuantity (excelCheckItemOfRow cat cols r) =
                   Fin (of_int (digitsVal (removeCommas v))))"
    if v: "findValue r (colQuantity cols) = Some v \<and> removeCommas v \<noteq> []
          \<and> (\<forall>c \<in> set v. isDigit c \<or> c = CHR '','')" for v
  proof -
    from v have ne: "v \<noteq> []" by (auto simp: removeCommas_def)
    have dg: "\<forall>c \<in> set (removeCommas v). isDigit c"
      using v by (auto simp: removeCommas_def)
    have num: "Number (removeCommas v) = toDouble (of_int (digitsVal (removeCommas v)))"
      using v dg by (intro Number_digits) simp_all
    have cell: "orElse (findValue r (colQuantity cols)) ''0'' = v"
      using v ne by (simp add: orElse_def truthy_def)
    have a: "quantity (inventoryItemOfRow cat cols r) = toDouble (of_int (digitsVal (removeCommas v)))"
      using num cell by (simp add: inventoryItemOfRow_def Let_def)
    have b: "fileQuantity (excelCheckItemOfRow cat cols r) =
               toDouble (of_int (digitsVal (removeCommas v)))"
      using num cell by (simp add: excelCheckItemOfRow_def Let_def)
    have c: "toDouble (of_int (digitsVal (removeCommas v))) = Fin (of_int (digitsVal (removeCommas v)))"
      if "digitsVal (removeCommas v) \<le> 2 ^ 53"
      using that digitsVal_nonneg [OF dg] by (intro toDouble_exact) simp
    from a b c show ?thesis by simp
  qed
  from P1 P2 P3 P4 Q1 Q2 show ?thesis by blast
qed

theorem numeric_fields_parsed_witness:
  "price (inventoryItemOfRow noCategory exColumns
            [(''Name'', ''Rice''), (''Qty'', ''1,2''), (''Price'', ''1.5 k'')]) = Fin 15
   \<and> quantity (inventoryItemOfRow noCategory exColumns
            [(''Name'', ''Rice''), (''Qty'', ''1,2''), (''Price'', ''1.5 k'')]) = Fin 12
   \<and> quantity (inventoryItemOfRow noCategory exColumns
            [(''Name'', ''Rice''), (''Qty'', ''9007199254740993'')]) = Fin 9007199254740992
   \<and> quantity (inventoryItemOfRow noCategory exColumns [(''Name'', ''Rice'')]) = Fin 0
   \<and> price (inventoryItemOfRow noCategory exColumns
            [(''Name'', ''Rice''), (''Price'', replicate 310 (CHR ''9''))]) = PosInf"
proof -
  let ?l = "[(''Name'', ''Rice''), (''Price'', replicate 310 (CHR ''9''))]"
  have hl: "2 ^ 1024 \<le>
      digitsVal (removeNonDigits (orElse (findValue ?l (colPrice exColumns)) ''0''))"
    by code_simp
  note Tl = numeric_fields_parsed [OF refl refl, where r = ?l and cols = exColumns and cat = noCategory]
  let ?r = "[(''Name'', ''Rice''), (''Qty'', ''1,2''), (''Price'', ''1.5 k'')]"
  let ?b = "[(''Name'', ''Rice''), (''Qty'', ''9007199254740993'')]"
  let ?e = "[(''Name'', ''Rice'')]"
  have h: "findValue ?r (colQuantity exColumns) = Some ''1,2'' \<and> removeCommas ''1,2'' \<noteq> []
          \<and> (\<forall>c \<in> set ''1,2''. isDigit c \<or> c = CHR '','')"
    by code_simp
  have hb: "findValue ?b (colQuantity exColumns) = Some ''9007199254740993''
          \<and> removeCommas ''9007199254740993'' \<noteq> []
          \<and> (\<forall>c \<in> set ''9007199254740993''. isDigit c \<or> c = CHR '','')"
    by code_simp
  have g: "\<not> truthy (findValue ?e (colQuantity exColumns))"
    by code_simp
  have d: "digitsVal (removeCommas ''1,2'') = 12"
    "digitsVal (removeNonDigits (orElse (findValue ?r (colPrice exColumns)) ''0'')) = 15"
    by code_simp+
  have db: "toDouble (of_int (digitsVal (removeCommas ''9007199254740993''))) = Fin 9007199254740992"
    by code_simp
  note Tr = numeric_fields_parsed [OF refl refl, where r = ?r and cols = exColumns and cat = noCategory]
  note Tb = numeric_fields_parsed [OF refl refl, where r = ?b and cols = exColumns and cat = noCategory]
  note Te = numeric_fields_parsed [OF refl refl, where r = ?e and cols = exColumns and cat = noCategory]
  have "price (inventoryItemOfRow noCategory exColumns ?r) = Fin 15"
    using Tr [THEN conjunct2, THEN conjunct2, THEN conjunct1] by (simp add: d)
  moreover have "quantity (inventoryItemOfRow noCategory exColumns ?r) = Fin 12"
    using Tr [THEN conjunct2, THEN conjunct2, THEN conjunct2, THEN conjunct2, THEN conjunct2,
        rule_format, OF h, THEN conjunct2, THEN conjunct2]
    by (simp add: d)
  moreover have "quantity (inventoryItemOfRow noCategory exColumns ?b) = Fin 9007199254740992"
    using Tb [THEN conjunct2, THEN conjunct2, THEN conjunct2, THEN conjunct2, THEN conjunct2,
        rule_format, OF hb, THEN conjunct1]
    by (simp only: db)
  moreover have "quantity (inventoryItemOfRow noCategory exColumns ?e) = Fin 0"
    using Te [THEN conjunct2, THEN conjunct2, THEN conjunct2, THEN conjunct2, THEN conjunct1,
        rule_format, OF g]
    by (rule conjunct1)
  moreover have "price (inventoryItemOfRow noCategory exColumns ?l) = PosInf"
    using Tl [THEN conjunct2, THEN conjunct2, THEN conjunct2, THEN conjunct1, rule_format, OF hl] .
  ultimately show ?thesis by (intro conjI)
qed

text \<open>
  C5 as stated fails for a record whose product code an earlier record has too: the scans
  are counted on the earlier record, and the later one stays not counted.
\<close>

theorem scan_later_duplicate_counterexample:
  "productCode (excelCheckItems duplicateState ! 1) = ''A1''
   \<and> actualQuantity (excelCheckItems duplicateState ! 1) = None
   \<and> actualQuantity (excelCheckItems ((scan ''A1'' ^^ 1) duplicateState) ! 1) = None
   \<and> actualQuantity (excelCheckItems ((scan ''A1'' ^^ 1) duplicateState) ! 0) = Some 1"
  by code_simp

text \<open>
  C5, amended. In count mode, for a record that is the first in load order with its
  normalized product code, whose product code is not blank and whose actual quantity is
  null, submitting its product code N times (N at least 1, nothing else in between) leaves
  its actual quantity at N; each of these scans adds 1 to it, null counting as 0.
\<close>

theorem repeated_scan_counts:
  assumes "i < length (excelCheckItems st)"
    and "trim (productCode (excelCheckItems st ! i)) \<noteq> []"
    and "\<forall>k<i. cleanString (Some (productCode (excelCheckItems st ! k))) \<noteq>
               cleanString (Some (productCode (excelCheckItems st ! i)))"
    and "actualQuantity (excelCheckItems st ! i) = None"
    and "1 \<le> N"
    and "q = productCode (excelCheckItems st ! i)"
  shows "actualQuantity (excelCheckItems ((scan q ^^ N) st) ! i) = Some (int N)
       \<and> (\<forall>m<N. actualQuantity (excelCheckItems ((scan q ^^ Suc m) st) ! i) =
             Some ((case actualQuantity (excelCheckItems ((scan q ^^ m) st) ! i) of
                      None \<Rightarrow> 0 | Some n \<Rightarrow> n) + 1))"
proof -
  have tq: "trim q \<noteq> []" using assms(2,6) by simp
  have hit: "cleanString (Some (productCode (excelCheckItems st ! i))) =
               toLowerCase (stripLeadingQuote (trim q))"
    using assms(2,6) by (simp add: cleanString_code)
  have first: "\<forall>k<i. cleanString (Some (productCode (excelCheckItems st ! k))) \<noteq>
                 toLowerCase (stripLeadingQuote (trim q))"
    using assms(3) hit by simp
  have after: "actualQuantity (excelCheckItems ((scan q ^^ Suc m) st) ! i) = Some (1 + int m)"
    for m
    using scan_repeated [OF assms(1) tq hit first, of m] assms(1,4) by simp
  have total: "actualQuantity (excelCheckItems ((scan q ^^ N) st) ! i) = Some (int N)"
  proof -
    from assms(5) obtain m where "N = Suc m" by (cases N) auto
    with after [of m] show ?thesis by simp
  qed
  have step: "actualQuantity (excelCheckItems ((scan q ^^ Suc m) st) ! i) =
             Some ((case actualQuantity (excelCheckItems ((scan q ^^ m) st) ! i) of
                      None \<Rightarrow> 0 | Some n \<Rightarrow> n) + 1)" for m
  proof (cases m)
    case 0
    with after [of 0] assms(4) show ?thesis by simp
  next
    case (Suc m')
    with after [of m] after [of m'] show ?thesis by simp
  qed
  from total step show ?thesis by blast
qed

theorem repeated_scan_counts_witness:
  "actualQuantity (excelCheckItems ((scan ''B2'' ^^ 3) scenarioState) ! 1) = Some 3"
proof -
  have h1: "1 < length (excelCheckItems scenarioState)" by code_simp
  have h2: "trim (productCode (excelCheckItems scenarioState ! 1)) \<noteq> []" by code_simp
  have h3: "\<forall>k<1. cleanString (Some (productCode (excelCheckItems scenarioState ! k))) \<noteq>
               cleanString (Some (productCode (excelCheckItems scenarioState ! 1)))"
    unfolding all_less_one by code_simp
  have h4: "actualQuantity (excelCheckItems scenarioState ! 1) = None" by code_simp
  have h5: "(1::nat) \<le> 3" by simp
  have h6: "''B2'' = productCode (excelCheckItems scenarioState ! 1)" by code_simp
  from repeated_scan_counts [OF h1 h2 h3 h4 h5 h6, THEN conjunct1] show ?thesis by simp
qed

text \<open>
  C6. In checklist mode, toggling the verified flag of a record twice gives back the state
  there was before the first toggle: every record, and so every checked flag, is as it was,
  whatever the index.
\<close>

theorem toggle_twice_restores:
  "fst (handleCheckItem i (fst (handleCheckItem i st))) = st"
  by (simp add: handleCheckItem_def Let_def toggleChecked_twice)

text \<open>
  C7. After a record that was not verified is toggled, the row the page is asked to scroll to
  is found in the filtered subset computed from the new state: from the position of the
  toggled record the search goes forward to the end of the subset, then from its start up to
  that position, and stops at the first record that is not checked. The filtered subset holds
  exactly the records of the new list that pass the three active filters, each with its
  index. The target is a member of the filtered subset, so it passes the active filters, and
  it is not checked; there is no target exactly when the filters exclude the toggled record
  or every record of the subset is checked.
\<close>

theorem next_unverified_in_filtered_subset:
  assumes inrange: "i < length (inventoryItems st)"
    and notyet: "\<not> checked (inventoryItems st ! i)"
    and F: "F = filteredInventoryItems (imeiFilter st) (statusFilter st) (categoryFilter st)
                  (inventoryItems (fst (handleCheckItem i st)))"
    and T: "target = snd (handleCheckItem i st)"
  shows "(\<forall>k. k < length F \<and> snd (F ! k) = i \<longrightarrow>
            target = map_option snd
                       (find (\<lambda>p. \<not> checked (fst p)) (drop (Suc k) F @ take k F)))
       \<and> (\<forall>t. target = Some t \<longrightarrow>
            t \<in> snd ` set F \<and> t \<noteq> i \<and>
            \<not> checked (inventoryItems (fst (handleCheckItem i st)) ! t))
       \<and> (target = None \<longleftrightarrow> i \<notin> snd ` set F \<or> (\<forall>p \<in> set F. checked (fst p)))
       \<and> (\<forall>item idx. (item, idx) \<in> set F \<longleftrightarrow>
            idx < length (inventoryItems st)
            \<and> item = inventoryItems (fst (handleCheckItem i st)) ! idx
            \<and> passesFilters (imeiFilter st) (statusFilter st) (categoryFilter st) item)
       \<and> (\<forall>t. target = Some t \<longrightarrow>
            t < length (inventoryItems st)
            \<and> passesFilters (imeiFilter st) (statusFilter st) (categoryFilter st)
                 (inventoryItems (fst (handleCheckItem i st)) ! t))"
proof -
  let ?new = "toggleChecked i (inventoryItems st)"
  have new: "inventoryItems (fst (handleCheckItem i st)) = ?new"
    by (simp add: handleCheckItem_def Let_def)
  have F': "F = filteredInventoryItems (imeiFilter st) (statusFilter st) (categoryFilter st) ?new"
    using F new by simp
  have T': "target = nextUncheckedTarget i F"
    using T F' by (simp add: handleCheckItem_def Let_def)
  have dist: "distinct (map snd F)"
    unfolding F' by (rule filtered_distinct)
  then have distF: "distinct F"
    by (rule distinct_map [THEN iffD1, THEN conjunct1])
  have mem: "snd p < length ?new \<and> fst p = ?new ! snd p" if "p \<in> set F" for p
    using that filtered_member [of "fst p" "snd p"] unfolding F' by simp
  have pos: "findIndex (\<lambda>(item, idx). idx = i) F = Some k"
    if "k < length F" "snd (F ! k) = i" for k
  proof (rule findIndex_first)
    show "k < length F" by fact
    show "(\<lambda>(item, idx). idx = i) (F ! k)" using that(2) by (simp add: case_prod_beta)
    show "\<forall>j<k. \<not> (\<lambda>(item, idx). idx = i) (F ! j)"
    proof (intro allI impI)
      fix j assume "j < k"
      then have "snd (F ! j) \<noteq> snd (F ! k)"
        using nth_eq_iff_index_eq [OF dist, of j k] that(1) by simp
      then show "\<not> (\<lambda>(item, idx). idx = i) (F ! j)"
        using that \<open>j < k\<close> by (simp add: case_prod_beta)
    qed
  qed
  have rot: "target = map_option snd (find (\<lambda>p. \<not> checked (fst p)) (drop (Suc k) F @ take k F))"
    if "k < length F" "snd (F ! k) = i" for k
    unfolding T' by (rule nextUncheckedTarget_rotated [OF pos [OF that]])
  have toggled: "checked (?new ! i)"
    using inrange notyet by (simp add: toggleChecked_nth)
  have A: "\<forall>k. k < length F \<and> snd (F ! k) = i \<longrightarrow>
            target = map_option snd
                       (find (\<lambda>p. \<not> checked (fst p)) (drop (Suc k) F @ take k F))"
    using rot by blast
  have B: "\<forall>t. target = Some t \<longrightarrow>
            t \<in> snd ` set F \<and> t \<noteq> i \<and> \<not> checked (?new ! t)"
  proof (intro allI impI)
    fix t assume t: "target = Some t"
    then obtain k where k: "findIndex (\<lambda>(item, idx). idx = i) F = Some k"
      using T' by (cases "findIndex (\<lambda>(item, idx). idx = i) F")
                  (simp_all add: nextUncheckedTarget_absent)
    from findIndex_Some [OF k] have kl: "k < length F" and ki: "snd (F ! k) = i"
      by (simp_all add: case_prod_beta)
    from rot [OF kl ki] t
    have "map_option snd (find (\<lambda>p. \<not> checked (fst p)) (drop (Suc k) F @ take k F)) = Some t"
      by simp
    then obtain p
      where p: "find (\<lambda>p. \<not> checked (fst p)) (drop (Suc k) F @ take k F) = Some p" "snd p = t"
      by (cases "find (\<lambda>p. \<not> checked (fst p)) (drop (Suc k) F @ take k F)") simp_all
    from p(1) have pin: "p \<in> set (drop (Suc k) F @ take k F)" and pun: "\<not> checked (fst p)"
      using find_Some_member [OF p(1)] by simp_all
    from pin have pF: "p \<in> set F" "p \<noteq> F ! k"
      using rotated_set [OF kl distF] by auto
    from mem [OF pF(1)] have pm: "fst p = ?new ! snd p" by simp
    have "snd p \<noteq> i"
    proof
      assume "snd p = i"
      with pm toggled pun show False by simp
    qed
    with pF(1) pun pm p(2) show "t \<in> snd ` set F \<and> t \<noteq> i \<and> \<not> checked (?new ! t)"
      by force
  qed
  have C: "target = None \<longleftrightarrow> i \<notin> snd ` set F \<or> (\<forall>p \<in> set F. checked (fst p))"
  proof (cases "findIndex (\<lambda>(item, idx). idx = i) F")
    case None
    then have "i \<notin> snd ` set F"
      by (auto simp: findIndex_None_iff)
    with None show ?thesis
      by (simp add: T' nextUncheckedTarget_absent)
  next
    case (Some k)
    from findIndex_Some [OF Some] have kl: "k < length F" and ki: "snd (F ! k) = i"
      by (simp_all add: case_prod_beta)
    have iin: "i \<in> snd ` set F"
      using kl ki by (metis image_eqI nth_mem)
    have "F ! k \<in> set F" using kl by simp
    from mem [OF this] ki toggled have ck: "checked (fst (F ! k))"
      by simp
    have "target = None \<longleftrightarrow> (\<forall>p \<in> set F - {F ! k}. checked (fst p))"
      unfolding rot [OF kl ki]
      by (simp only: option.map_disc_iff find_None_iff rotated_set [OF kl distF]) blast
    also have "\<dots> \<longleftrightarrow> (\<forall>p \<in> set F. checked (fst p))"
      using ck by auto
    finally show ?thesis using iin by simp
  qed
  have D: "\<forall>item idx. (item, idx) \<in> set F \<longleftrightarrow>
            idx < length (inventoryItems st) \<and> item = ?new ! idx
            \<and> passesFilters (imeiFilter st) (statusFilter st) (categoryFilter st) item"
    unfolding F' by (simp add: filtered_member_iff toggleChecked_length)
  have E: "\<forall>t. target = Some t \<longrightarrow>
            t < length (inventoryItems st)
            \<and> passesFilters (imeiFilter st) (statusFilter st) (categoryFilter st) (?new ! t)"
  proof (intro allI impI)
    fix t assume "target = Some t"
    with B have "t \<in> snd ` set F" by (elim allE [of _ t]) simp
    then obtain item where it: "(item, t) \<in> set F" by auto
    have "t < length (inventoryItems st) \<and> item = ?new ! t
        \<and> passesFilters (imeiFilter st) (statusFilter st) (categoryFilter st) item"
      by (rule D [rule_format, THEN iffD1, OF it])
    then show "t < length (inventoryItems st)
            \<and> passesFilters (imeiFilter st) (statusFilter st) (categoryFilter st) (?new ! t)"
      by auto
  qed
  from A B C D E show ?thesis unfolding new by (intro conjI)
qed

theorem next_unverified_witness:
  "0 < length (inventoryItems sweepState)
   \<and> \<not> checked (inventoryItems sweepState ! 0)
   \<and> snd (handleCheckItem 0 sweepState) = Some 2
   \<and> \<not> checked (inventoryItems (fst (handleCheckItem 0 sweepState)) ! 1)
   \<and> \<not> passesFilters (imeiFilter sweepState) (statusFilter sweepState)
         (categoryFilter sweepState) (inventoryItems (fst (handleCheckItem 0 sweepState)) ! 1)
   \<and> passesFilters (imeiFilter sweepState) (statusFilter sweepState)
         (categoryFilter sweepState) (inventoryItems (fst (handleCheckItem 0 sweepState)) ! 2)
   \<and> snd (handleCheckItem 2 sweepState) = Some 0"
proof -
  have h1: "0 < length (inventoryItems sweepState)"
    by (simp add: sweepState_def exInventory_def)
  have h2: "\<not> checked (inventoryItems sweepState ! 0)"
    by (simp add: sweepState_def exInventory_def exItem_def)
  have v: "snd (handleCheckItem 0 sweepState) = Some 2"
    by code_simp
  have skipped: "\<not> checked (inventoryItems (fst (handleCheckItem 0 sweepState)) ! 1)"
    "\<not> passesFilters (imeiFilter sweepState) (statusFilter sweepState)
         (categoryFilter sweepState) (inventoryItems (fst (handleCheckItem 0 sweepState)) ! 1)"
    by code_simp+
  have w: "snd (handleCheckItem 2 sweepState) = Some 0"
    by code_simp
  note T = next_unverified_in_filtered_subset [OF h1 h2 refl refl]
  have "passesFilters (imeiFilter sweepState) (statusFilter sweepState)
         (categoryFilter sweepState) (inventoryItems (fst (handleCheckItem 0 sweepState)) ! 2)"
    using T [THEN conjunct2, THEN conjunct2, THEN conjunct2, THEN conjunct2, rule_format, OF v]
    by (rule conjunct2)
  with h1 h2 v skipped w show ?thesis by (intro conjI)
qed



text \<open>
  C9. A submitted query that is not blank and is, once trimmed and lowered, neither the QR
  code nor the product code of a record nor part of a lowered product name resolves to
  nothing; the search then puts the trimmed query, as typed, with a null result at the head
  of the history, and changes nothing but the history, the query field and the suggestion
  flag.
\<close>

theorem search_miss_recorded:
  assumes "trim (searchQuery st) \<noteq> []"
    and "\<forall>item \<in> set (inventoryItems st).
           toLowerCase (trim (qrCode item)) \<noteq> toLowerCase (trim (searchQuery st))
         \<and> toLowerCase (trim (productCodeForSearch item)) \<noteq> toLowerCase (trim (searchQuery st))
         \<and> \<not> includesStr (toLowerCase (productName item)) (toLowerCase (trim (searchQuery st)))"
  shows "resolveSearch (inventoryItems st) (toLowerCase (trim (searchQuery st))) = None
       \<and> handleSearchSubmit st =
           st \<lparr> searchHistory := (trim (searchQuery st), None) # searchHistory st,
                searchQuery := [],
                isSuggestionsVisible := False \<rparr>"
proof -
  have "resolveSearch (inventoryItems st) (toLowerCase (trim (searchQuery st))) = None"
    using assms(2) by (intro resolveSearch_none) (simp add: exactKeyMatch_def)
  then show ?thesis
    using assms(1) by (simp add: handleSearchSubmit_nonblank)
qed

theorem search_miss_recorded_witness:
  "searchHistory (handleSearchSubmit (exInventory duplicateInventory ''all'' '' xyz '')) =
     [(''xyz'', None)]"
proof -
  let ?st = "exInventory duplicateInventory ''all'' '' xyz ''"
  have h1: "trim (searchQuery ?st) \<noteq> []" by code_simp
  have h2: "\<forall>item \<in> set (inventoryItems ?st).
           toLowerCase (trim (qrCode item)) \<noteq> toLowerCase (trim (searchQuery ?st))
         \<and> toLowerCase (trim (productCodeForSearch item)) \<noteq> toLowerCase (trim (searchQuery ?st))
         \<and> \<not> includesStr (toLowerCase (productName item)) (toLowerCase (trim (searchQuery ?st)))"
    by code_simp
  have e: "trim (searchQuery ?st) = ''xyz''" "searchHistory ?st = []" by code_simp+
  from search_miss_recorded [OF h1 h2, THEN conjunct2] show ?thesis
    by (simp add: e)
qed

text \<open>
  C10 fails on the code. A scan of a single quote mark is not blank, so it is not ignored,
  and it is normalized to the empty string; no product code and no IMEI is that query, yet
  the first record without an IMEI is counted, because a missing IMEI is cleaned to the
  empty string too.
\<close>

theorem quote_scan_counts_record_without_imei:
  "\<not> list_ex (matchesSomeKey [CHR 0x27]) (excelCheckItems scenarioState)
   \<and> actualQuantity (excelCheckItems scenarioState ! 0) = None
   \<and> actualQuantity (excelCheckItems (scan [CHR 0x27] scenarioState) ! 0) = Some 1
   \<and> scanStatus (scan [CHR 0x27] scenarioState) = (Success, Updated ''Item A1'')"
  by code_simp

end
